theory Spec2Isabelle
  imports Complex_Main
begin

section \<open>Characters and strings\<close>

text \<open>
  The scripts work on JavaScript strings. The characters they test for are all ASCII, so
  a string is modelled as a \<open>char list\<close>. The special characters are written by code.
\<close>

abbreviation (input) BSL :: char where "BSL \<equiv> CHR 0x5C"
abbreviation (input) DQ :: char where "DQ \<equiv> CHR 0x22"
abbreviation (input) SQ :: char where "SQ \<equiv> CHR 0x27"
abbreviation (input) NL :: char where "NL \<equiv> CHR 0x0A"
abbreviation (input) CR :: char where "CR \<equiv> CHR 0x0D"
abbreviation (input) TAB :: char where "TAB \<equiv> CHR 0x09"
abbreviation (input) FF :: char where "FF \<equiv> CHR 0x0C"

text \<open>
  \<open>str.replace(/x/g, r)\<close> for a one-character pattern \<open>x\<close> and a replacement text
  \<open>r\<close> without \<open>$\<close>: every occurrence of \<open>x\<close> becomes \<open>r\<close>.
\<close>

definition replaceAll :: "char \<Rightarrow> string \<Rightarrow> string \<Rightarrow> string" where
  "replaceAll x r s = concat (map (\<lambda>c. if c = x then r else [c]) s)"

text \<open>
  \<open>escapeStr\<close> (json-to-db.ts and the statement generator have the same body). The
  argument is \<open>string | undefined\<close>; \<open>!str\<close> holds for \<open>undefined\<close> and for the empty
  string. The six replacements run in the order of the source.
\<close>

definition escapeStr :: "string option \<Rightarrow> string" where
  "escapeStr str =
     (case str of
        None \<Rightarrow> []
      | Some s \<Rightarrow>
          if s = [] then []
          else replaceAll FF [BSL, CHR ''f'']
                (replaceAll TAB [BSL, CHR ''t'']
                  (replaceAll CR [BSL, CHR ''r'']
                    (replaceAll NL [BSL, CHR ''n'']
                      (replaceAll SQ [BSL, SQ]
                        (replaceAll BSL [BSL, BSL] s))))))"

section \<open>The movie record and its formatting\<close>

text \<open>
  A JavaScript number is modelled as a real; the only test the formatting makes on a
  number is its truthiness, and the falsy numbers that \<open>JSON.parse\<close> can produce are
  zeros. An optional field is an \<open>option\<close>: \<open>None\<close> stands for a key that is missing
  or \<open>null\<close>.
\<close>

type_synonym number = real

record Genre =
  genre_id :: number
  genre_name :: string

record Collection =
  collection_id :: number
  collection_name :: "string option"
  collection_poster_path :: "string option"
  collection_backdrop_path :: "string option"

record Movie =
  movie_id :: number
  title :: "string option"
  budget :: "number option"
  overview :: "string option"
  poster_path :: "string option"
  release_date :: "string option"
  revenue :: "number option"
  runtime :: "number option"
  tagline :: "string option"
  vote_average :: "number option"
  original_language :: "string option"
  genres :: "Genre list option"
  belongs_to_collection :: "Collection option"

text \<open>\<open>a || d\<close> on an optional string and on an optional number.\<close>

definition orStr :: "string option \<Rightarrow> string \<Rightarrow> string" where
  "orStr a d = (case a of None \<Rightarrow> d | Some s \<Rightarrow> if s = [] then d else s)"

definition orNum :: "number option \<Rightarrow> number \<Rightarrow> number" where
  "orNum a d = (case a of None \<Rightarrow> d | Some n \<Rightarrow> if n = 0 then d else n)"

text \<open>
  The values of the object that \<open>formatMovieForDB\<close> builds. \<open>Date s\<close> is
  \<open>new Date(s)\<close>; \<open>Null\<close> is \<open>null\<close>.
\<close>

datatype dbval = Num number | Str string | Date string | Strs "string list" | Null

text \<open>
  \<open>formatMovieForDB\<close> (json-to-db.ts). The result is the object literal, as an
  association list in the order of the source. \<open>showNum\<close> is the text that a template
  literal gives a number.
\<close>

definition formatMovieForDB :: "(number \<Rightarrow> string) \<Rightarrow> Movie \<Rightarrow> (string \<times> dbval) list" where
  "formatMovieForDB showNum movie =
     [(''id'', Num (movie_id movie)),
      (''title'', Str (orStr (title movie) '''')),
      (''budget'', Num (orNum (budget movie) 0)),
      (''overview'', Str (orStr (overview movie) '''')),
      (''poster'', Str (orStr (poster_path movie) ''/empty'')),
      (''release_date'',
         (case release_date movie of
            None \<Rightarrow> Date ''0001-01-01''
          | Some d \<Rightarrow> if d = [] then Date ''0001-01-01'' else Date d)),
      (''revenue'', Num (orNum (revenue movie) 0)),
      (''runtime'', Num (orNum (runtime movie) 0)),
      (''tagline'', Str (orStr (tagline movie) '''')),
      (''vote_average'', Num (orNum (vote_average movie) 0)),
      (''language'', Str (''language:'' @ orStr (original_language movie) ''en'')),
      (''genre'',
         (case genres movie of
            None \<Rightarrow> Strs [''genre:0'']
          | Some gs \<Rightarrow>
              if length gs > 0 then Strs (map (\<lambda>genre. ''genre:'' @ showNum (genre_id genre)) gs)
              else Strs [''genre:0''])),
      (''collection'',
         (case belongs_to_collection movie of
            None \<Rightarrow> Null
          | Some c \<Rightarrow> Str (''collection:'' @ showNum (collection_id c))))]"

text \<open>
  \<open>formatMovieObject\<close> of the statement generator: the same defaults, written into a
  text. \<open>joinWith\<close> is \<open>Array.prototype.join\<close>.
\<close>

definition joinWith :: "string \<Rightarrow> string list \<Rightarrow> string" where
  "joinWith sep xs = (case xs of [] \<Rightarrow> [] | x # rest \<Rightarrow> x @ concat (map (\<lambda>y. sep @ y) rest))"

definition formatMovieObject :: "(number \<Rightarrow> string) \<Rightarrow> Movie \<Rightarrow> string" where
  "formatMovieObject showNum movie =
     (let title' = escapeStr (Some (orStr (title movie) ''''));
          overview' = escapeStr (Some (orStr (overview movie) ''''));
          tagline' = escapeStr (Some (orStr (tagline movie) ''''));
          poster = escapeStr (Some (orStr (poster_path movie) ''/empty''));
          release_date' = orStr (release_date movie) ''0001-01-01'';
          budget' = orNum (budget movie) 0;
          revenue' = orNum (revenue movie) 0;
          runtime' = orNum (runtime movie) 0;
          vote_average' = orNum (vote_average movie) 0;
          language = orStr (original_language movie) ''en'';
          genres' =
            (case genres movie of
               None \<Rightarrow> ''[genre:0]''
             | Some gs \<Rightarrow>
                 if length gs > 0
                 then ''['' @ joinWith '', '' (map (\<lambda>genre. ''genre:'' @ showNum (genre_id genre)) gs) @ '']''
                 else ''[genre:0]'');
          collection =
            (case belongs_to_collection movie of
               None \<Rightarrow> ''NULL''
             | Some c \<Rightarrow> ''collection:'' @ showNum (collection_id c))
      in concat
           [''  {'', [NL],
            ''    id: '', showNum (movie_id movie), '','', [NL],
            ''    title: '', [SQ], title', [SQ], '','', [NL],
            ''    budget: '', showNum budget', '','', [NL],
            ''    overview: '', [SQ], overview', [SQ], '','', [NL],
            ''    poster: '', [SQ], poster, [SQ], '','', [NL],
            ''    release_date: <datetime>'', [SQ], release_date', [SQ], '','', [NL],
            ''    revenue: '', showNum revenue', '','', [NL],
            ''    runtime: '', showNum runtime', '','', [NL],
            ''    tagline: '', [SQ], tagline', [SQ], '','', [NL],
            ''    vote_average: '', showNum vote_average', '','', [NL],
            ''    language: language:'', language, '','', [NL],
            ''    genre: '', genres', '','', [NL],
            ''    collection: '', collection, [NL],
            ''  }''])"

section \<open>The database, as the scripts use it\<close>

text \<open>
  json-to-db.ts talks to the database through four calls:
  \<open>db.query('BEGIN TRANSACTION;')\<close>, \<open>db.create('movie', r)\<close>,
  \<open>db.query('COMMIT TRANSACTION;')\<close> and \<open>db.query('CANCEL TRANSACTION;')\<close>.
  The database itself is not part of the repository. It is modelled as a transactional
  store: the list of the transactions committed so far, and the records staged by the
  open transaction, if there is one. \<open>BEGIN\<close> opens a fresh transaction, \<open>CREATE\<close>
  stages a record (outside a transaction it commits the record on its own), \<open>COMMIT\<close>
  publishes the staged records as one transaction, \<open>CANCEL\<close> drops them. Any call may
  be rejected; which ones are is a parameter \<open>fails\<close> of the model, and a rejected
  call changes nothing and throws.
\<close>

type_synonym dbrecord = "(string \<times> dbval) list"

datatype dbop = Begin | Create dbrecord | Commit | Cancel

datatype error = SyntaxError | DbFailure dbop

record store =
  committed :: "dbrecord list list"
  pending :: "dbrecord list option"

definition applyOp :: "store \<Rightarrow> dbop \<Rightarrow> store" where
  "applyOp st op =
     (case op of
        Begin \<Rightarrow> st\<lparr>pending := Some []\<rparr>
      | Create r \<Rightarrow>
          (case pending st of
             None \<Rightarrow> st\<lparr>committed := committed st @ [[r]]\<rparr>
           | Some p \<Rightarrow> st\<lparr>pending := Some (p @ [r])\<rparr>)
      | Commit \<Rightarrow>
          (case pending st of
             None \<Rightarrow> st
           | Some p \<Rightarrow> st\<lparr>committed := committed st @ [p], pending := None\<rparr>)
      | Cancel \<Rightarrow> st\<lparr>pending := None\<rparr>)"

definition dbExec :: "(store \<Rightarrow> dbop \<Rightarrow> bool) \<Rightarrow> store \<Rightarrow> dbop \<Rightarrow> store \<times> error option" where
  "dbExec fails st op = (if fails st op then (st, Some (DbFailure op)) else (applyOp st op, None))"

text \<open>The loop \<open>for (const movie of formattedMovies) await db.create('movie', movie)\<close>.\<close>

fun createAll :: "(store \<Rightarrow> dbop \<Rightarrow> bool) \<Rightarrow> store \<Rightarrow> dbrecord list \<Rightarrow> store \<times> error option" where
  "createAll fails st [] = (st, None)"
| "createAll fails st (r # rs) =
     (case dbExec fails st (Create r) of
        (st', Some e) \<Rightarrow> (st', Some e)
      | (st', None) \<Rightarrow> createAll fails st' rs)"

text \<open>
  \<open>sendBatchToSurrealDB\<close>. The result is the store after the call and the error thrown,
  if any. \<open>BEGIN\<close> is outside the \<open>try\<close>; the \<open>catch\<close> cancels and rethrows, and an
  error of the \<open>CANCEL\<close> call itself replaces the first one.
\<close>

definition sendBatchToSurrealDB ::
  "(number \<Rightarrow> string) \<Rightarrow> (store \<Rightarrow> dbop \<Rightarrow> bool) \<Rightarrow> store \<Rightarrow> Movie list \<Rightarrow> store \<times> error option" where
  "sendBatchToSurrealDB showNum fails db movies =
     (case dbExec fails db Begin of
        (db1, Some e) \<Rightarrow> (db1, Some e)
      | (db1, None) \<Rightarrow>
          (case (case createAll fails db1 (map (formatMovieForDB showNum) movies) of
                   (db2, Some e) \<Rightarrow> (db2, Some e)
                 | (db2, None) \<Rightarrow> dbExec fails db2 Commit) of
             (db3, None) \<Rightarrow> (db3, None)
           | (db3, Some e) \<Rightarrow>
               (case dbExec fails db3 Cancel of
                  (db4, Some e') \<Rightarrow> (db4, Some e')
                | (db4, None) \<Rightarrow> (db4, Some e))))"

section \<open>The ingestion loop of json-to-db.ts\<close>

text \<open>
  What the script prints: \<open>console.error("Error parsing object:", err)\<close>,
  \<open>console.clear()\<close>, the progress line, the completion line and
  \<open>console.error("Error:", error)\<close> of the outer \<open>catch\<close>.
\<close>

datatype logline =
    ErrorParsingObject error
  | Clear
  | RecordsCreated nat nat
  | Completed nat nat
  | ErrorLog error

text \<open>The three variables that both scanners keep.\<close>

record scanState =
  openBraces :: int
  inQuotes :: bool
  escapeNext :: bool

text \<open>
  The variables of \<open>sendMoviesToSurrealDB\<close>, with the database and the console. The model
  starts where the connection is open: the \<open>connect\<close>, \<open>signin\<close> and \<open>use\<close> calls,
  the line they print and the closing \<open>db.close()\<close> are left out.
\<close>

record ingestState = scanState +
  objectBuffer :: string
  movieCount :: nat
  batchCount :: nat
  currentBatch :: "Movie list"
  db :: store
  console :: "logline list"

text \<open>
  The body of \<open>if (openBraces === 0)\<close>: the \<open>try\<close> block and its \<open>catch\<close>.
  \<open>parse\<close> is \<open>JSON.parse\<close> followed by the cast to \<open>Movie\<close>; \<open>None\<close> is a thrown
  \<open>SyntaxError\<close>. The call of \<open>sendBatchToSurrealDB\<close> is inside the same \<open>try\<close>, so an
  error it throws is caught by the same \<open>catch\<close>: the statements after the call are
  skipped and the buffer is reset.
\<close>

definition completeObject ::
  "(number \<Rightarrow> string) \<Rightarrow> (string \<Rightarrow> Movie option) \<Rightarrow> (store \<Rightarrow> dbop \<Rightarrow> bool) \<Rightarrow> int \<Rightarrow>
   ingestState \<Rightarrow> ingestState" where
  "completeObject showNum parse fails batchSize s =
     (case parse (objectBuffer s) of
        None \<Rightarrow> s\<lparr>console := console s @ [ErrorParsingObject SyntaxError], objectBuffer := []\<rparr>
      | Some movie \<Rightarrow>
          (let s1 = s\<lparr>currentBatch := currentBatch s @ [movie], movieCount := movieCount s + 1\<rparr>
           in if int (length (currentBatch s1)) \<ge> batchSize then
                (case sendBatchToSurrealDB showNum fails (db s1) (currentBatch s1) of
                   (db', Some e) \<Rightarrow>
                     s1\<lparr>db := db', console := console s1 @ [ErrorParsingObject e], objectBuffer := []\<rparr>
                 | (db', None) \<Rightarrow>
                     s1\<lparr>db := db', currentBatch := [], batchCount := batchCount s1 + 1,
                        console := console s1 @ [Clear, RecordsCreated (movieCount s1) (batchCount s1 + 1)],
                        objectBuffer := []\<rparr>)
              else s1\<lparr>objectBuffer := []\<rparr>))"

text \<open>The body of the inner \<open>for\<close> loop, for one character.\<close>

definition processChar ::
  "(number \<Rightarrow> string) \<Rightarrow> (string \<Rightarrow> Movie option) \<Rightarrow> (store \<Rightarrow> dbop \<Rightarrow> bool) \<Rightarrow> int \<Rightarrow>
   ingestState \<Rightarrow> char \<Rightarrow> ingestState" where
  "processChar showNum parse fails batchSize s0 c =
     (let s = s0\<lparr>objectBuffer := objectBuffer s0 @ [c]\<rparr>
      in if escapeNext s then s\<lparr>escapeNext := False\<rparr>
         else if c = BSL then s\<lparr>escapeNext := True\<rparr>
         else if c = DQ \<and> \<not> escapeNext s then s\<lparr>inQuotes := \<not> inQuotes s\<rparr>
         else if \<not> inQuotes s then
           (if c = CHR ''{'' then s\<lparr>openBraces := openBraces s + 1\<rparr>
            else if c = CHR ''}'' then
              (let s1 = s\<lparr>openBraces := openBraces s - 1\<rparr>
               in if openBraces s1 = 0 then completeObject showNum parse fails batchSize s1 else s1)
            else s)
         else s)"

text \<open>One line of the input: its characters, then the newline that keeps an open object.\<close>

definition processLine ::
  "(number \<Rightarrow> string) \<Rightarrow> (string \<Rightarrow> Movie option) \<Rightarrow> (store \<Rightarrow> dbop \<Rightarrow> bool) \<Rightarrow> int \<Rightarrow>
   ingestState \<Rightarrow> string \<Rightarrow> ingestState" where
  "processLine showNum parse fails batchSize s line =
     (let s1 = foldl (processChar showNum parse fails batchSize) s line
      in if objectBuffer s1 \<noteq> [] \<and> openBraces s1 > 0
         then s1\<lparr>objectBuffer := objectBuffer s1 @ [NL]\<rparr> else s1)"

definition initialState :: "store \<Rightarrow> ingestState" where
  "initialState db0 =
     \<lparr>openBraces = 0, inQuotes = False, escapeNext = False, objectBuffer = [],
      movieCount = 0, batchCount = 0, currentBatch = [], db = db0, console = []\<rparr>"

text \<open>The \<open>for await (const line of rl)\<close> loop over the lines that \<open>readline\<close> delivers.\<close>

definition readLoop ::
  "(number \<Rightarrow> string) \<Rightarrow> (string \<Rightarrow> Movie option) \<Rightarrow> (store \<Rightarrow> dbop \<Rightarrow> bool) \<Rightarrow> int \<Rightarrow>
   store \<Rightarrow> string list \<Rightarrow> ingestState" where
  "readLoop showNum parse fails batchSize db0 lines =
     foldl (processLine showNum parse fails batchSize) (initialState db0) lines"

text \<open>
  \<open>sendMoviesToSurrealDB\<close>: the loop, the last batch, the completion line. An error of
  the last \<open>sendBatchToSurrealDB\<close> reaches the outer \<open>catch\<close>, which prints it; the
  completion line is then not printed. The function returns nothing: what a caller can
  observe is the \<open>db\<close> and the \<open>console\<close> of the state returned here.
\<close>

definition sendMoviesToSurrealDB ::
  "(number \<Rightarrow> string) \<Rightarrow> (string \<Rightarrow> Movie option) \<Rightarrow> (store \<Rightarrow> dbop \<Rightarrow> bool) \<Rightarrow>
   store \<Rightarrow> string list \<Rightarrow> int \<Rightarrow> ingestState" where
  "sendMoviesToSurrealDB showNum parse fails db0 lines batchSize =
     (let s = readLoop showNum parse fails batchSize db0 lines
      in if length (currentBatch s) > 0 then
           (case sendBatchToSurrealDB showNum fails (db s) (currentBatch s) of
              (db', Some e) \<Rightarrow> s\<lparr>db := db', console := console s @ [ErrorLog e]\<rparr>
            | (db', None) \<Rightarrow>
                s\<lparr>db := db', batchCount := batchCount s + 1,
                  console := console s @
                    [Clear, RecordsCreated (movieCount s) (batchCount s + 1),
                     Completed (movieCount s) (batchCount s + 1)]\<rparr>)
         else s\<lparr>console := console s @ [Completed (movieCount s) (batchCount s)]\<rparr>)"

section \<open>The array writer of convert.ts\<close>

text \<open>
  \<open>String.prototype.trim\<close>, on the ASCII white space (tab, line feed, vertical tab, form
  feed, carriage return, space). JavaScript strips the no-break space and the other
  Unicode white space too; this model is right on ASCII texts only.
\<close>

definition isWhite :: "char \<Rightarrow> bool" where
  "isWhite c \<longleftrightarrow> c \<in> {TAB, NL, CHR 0x0B, FF, CR, CHR '' ''}"

definition trim :: "string \<Rightarrow> string" where
  "trim s = rev (dropWhile isWhite (rev (dropWhile isWhite s)))"

text \<open>The variables of \<open>fixJsonFile\<close> and the texts written to the output stream.\<close>

record fixState = scanState +
  lineBuffer :: string
  isFirstObject :: bool
  written :: "string list"

definition fixChar :: "fixState \<Rightarrow> char \<Rightarrow> fixState" where
  "fixChar s c =
     (if escapeNext s then s\<lparr>escapeNext := False\<rparr>
      else if c = BSL then s\<lparr>escapeNext := True\<rparr>
      else if c = DQ \<and> \<not> escapeNext s then s\<lparr>inQuotes := \<not> inQuotes s\<rparr>
      else if \<not> inQuotes s then
        (if c = CHR ''{'' then s\<lparr>openBraces := openBraces s + 1\<rparr>
         else if c = CHR ''}'' then
           (let s1 = s\<lparr>openBraces := openBraces s - 1\<rparr>
            in if openBraces s1 = 0 then
                 (let s2 = (if \<not> isFirstObject s1 then s1\<lparr>written := written s1 @ [[CHR '','', NL]]\<rparr>
                            else s1\<lparr>isFirstObject := False\<rparr>)
                  in s2\<lparr>written := written s2 @ [trim (lineBuffer s2)], lineBuffer := []\<rparr>)
               else s1)
         else s)
      else s)"

text \<open>One line: the whole line joins the buffer first, then its characters are scanned.\<close>

definition fixLine :: "fixState \<Rightarrow> string \<Rightarrow> fixState" where
  "fixLine s line =
     (let s1 = foldl fixChar (s\<lparr>lineBuffer := lineBuffer s @ line\<rparr>) line
      in if lineBuffer s1 \<noteq> [] then s1\<lparr>lineBuffer := lineBuffer s1 @ [NL]\<rparr> else s1)"

definition fixJsonFile :: "string list \<Rightarrow> string list" where
  "fixJsonFile lines =
     written (foldl fixLine
        \<lparr>openBraces = 0, inQuotes = False, escapeNext = False,
         lineBuffer = [], isFirstObject = True, written = [[CHR ''['', NL]]\<rparr> lines)
     @ [[NL, CHR '']'']]"

section \<open>Notions used in the statements and proofs\<close>

subsection \<open>The text that \<open>escapeStr\<close> gives one character\<close>

definition escape1 :: "char \<Rightarrow> string" where
  "escape1 c =
     (if c = BSL then [BSL, BSL] else if c = SQ then [BSL, SQ]
      else if c = NL then [BSL, CHR ''n''] else if c = CR then [BSL, CHR ''r'']
      else if c = TAB then [BSL, CHR ''t''] else if c = FF then [BSL, CHR ''f'']
      else [c])"

definition quotesEscaped :: "string \<Rightarrow> bool" where
  "quotesEscaped r \<longleftrightarrow> (\<forall>i<length r. r ! i = SQ \<longrightarrow> 0 < i \<and> r ! (i - 1) = BSL)"

text \<open>
  The number of backslashes that stand in a row right before index \<open>i\<close> of a text. A
  character after an odd number of them is escaped; after an even number, each backslash
  is itself escaped and the character is bare.
\<close>

definition backslashesBefore :: "string \<Rightarrow> nat \<Rightarrow> nat" where
  "backslashesBefore r i = length (takeWhile (\<lambda>c. c = BSL) (rev (take i r)))"

subsection \<open>Sample values for the examples\<close>

text \<open>
  A movie object that holds an id and nothing else, a number printer that is right for
  the numbers 0 to 3, an empty store, and a database that accepts every call and one
  that rejects every call.
\<close>

definition sampleMovie :: "number \<Rightarrow> Movie" where
  "sampleMovie i =
     \<lparr>movie_id = i, title = None, budget = None, overview = None, poster_path = None,
      release_date = None, revenue = None, runtime = None, tagline = None,
      vote_average = None, original_language = None, genres = None,
      belongs_to_collection = None\<rparr>"

definition showDigit :: "number \<Rightarrow> string" where
  "showDigit n = (if n = 1 then ''1'' else if n = 2 then ''2'' else if n = 3 then ''3'' else ''0'')"

definition emptyStore :: store where
  "emptyStore = \<lparr>committed = [], pending = None\<rparr>"

definition neverFails :: "store \<Rightarrow> dbop \<Rightarrow> bool" where
  "neverFails st op = False"

definition alwaysFails :: "store \<Rightarrow> dbop \<Rightarrow> bool" where
  "alwaysFails st op = True"

text \<open>A database that rejects the record of the movie with id 2.\<close>

definition rejectsSecond :: "store \<Rightarrow> dbop \<Rightarrow> bool" where
  "rejectsSecond st op = (op = Create (formatMovieForDB showDigit (sampleMovie 2)))"

text \<open>
  A database that rejects the commit of a transaction of two records and accepts every
  other call.
\<close>

definition rejectsPair :: "store \<Rightarrow> dbop \<Rightarrow> bool" where
  "rejectsPair st op =
     (op = Commit \<and> (case pending st of None \<Rightarrow> False | Some p \<Rightarrow> length p = 2))"

subsection \<open>The scanner variables on their own\<close>

text \<open>
  \<open>scanChar\<close> is \<open>processChar\<close> on the variables \<open>openBraces\<close>, \<open>inQuotes\<close>,
  \<open>escapeNext\<close> and \<open>objectBuffer\<close> alone. Where \<open>processChar\<close> enters the \<open>try\<close>
  block, \<open>scanChar\<close> records the buffer, which is the text handed to \<open>JSON.parse\<close>,
  and empties it. \<open>spansOf\<close> is the list of these texts for a whole input, and
  \<open>decodedMovies\<close> the movies that \<open>JSON.parse\<close> makes of them. \<open>decodeSpan\<close> is the
  \<open>try\<close> block on the other variables. That the loop of the source is the composition
  of the two is proved below (\<open>readLoop_scan\<close>).
\<close>

record scanner = scanState +
  buffer :: string
  spans :: "string list"

definition scanChar :: "scanner \<Rightarrow> char \<Rightarrow> scanner" where
  "scanChar k0 c =
     (let k = k0\<lparr>buffer := buffer k0 @ [c]\<rparr>
      in if escapeNext k then k\<lparr>escapeNext := False\<rparr>
         else if c = BSL then k\<lparr>escapeNext := True\<rparr>
         else if c = DQ \<and> \<not> escapeNext k then k\<lparr>inQuotes := \<not> inQuotes k\<rparr>
         else if \<not> inQuotes k then
           (if c = CHR ''{'' then k\<lparr>openBraces := openBraces k + 1\<rparr>
            else if c = CHR ''}'' then
              (let k1 = k\<lparr>openBraces := openBraces k - 1\<rparr>
               in if openBraces k1 = 0 then k1\<lparr>spans := spans k1 @ [buffer k1], buffer := []\<rparr>
                  else k1)
            else k)
         else k)"

definition scanLine :: "scanner \<Rightarrow> string \<Rightarrow> scanner" where
  "scanLine k line =
     (let k1 = foldl scanChar k line
      in if buffer k1 \<noteq> [] \<and> openBraces k1 > 0 then k1\<lparr>buffer := buffer k1 @ [NL]\<rparr> else k1)"

definition scanner0 :: scanner where
  "scanner0 = \<lparr>openBraces = 0, inQuotes = False, escapeNext = False, buffer = [], spans = []\<rparr>"

definition spansOf :: "string list \<Rightarrow> string list" where
  "spansOf lines = spans (foldl scanLine scanner0 lines)"

definition decodedMovies :: "(string \<Rightarrow> Movie option) \<Rightarrow> string list \<Rightarrow> Movie list" where
  "decodedMovies parse lines = List.map_filter parse (spansOf lines)"

definition decodeSpan ::
  "(number \<Rightarrow> string) \<Rightarrow> (string \<Rightarrow> Movie option) \<Rightarrow> (store \<Rightarrow> dbop \<Rightarrow> bool) \<Rightarrow> int \<Rightarrow>
   ingestState \<Rightarrow> string \<Rightarrow> ingestState" where
  "decodeSpan showNum parse fails batchSize s sp =
     (case parse sp of
        None \<Rightarrow> s\<lparr>console := console s @ [ErrorParsingObject SyntaxError]\<rparr>
      | Some movie \<Rightarrow>
          (let s1 = s\<lparr>currentBatch := currentBatch s @ [movie], movieCount := movieCount s + 1\<rparr>
           in if int (length (currentBatch s1)) \<ge> batchSize then
                (case sendBatchToSurrealDB showNum fails (db s1) (currentBatch s1) of
                   (db', Some e) \<Rightarrow> s1\<lparr>db := db', console := console s1 @ [ErrorParsingObject e]\<rparr>
                 | (db', None) \<Rightarrow>
                     s1\<lparr>db := db', currentBatch := [], batchCount := batchCount s1 + 1,
                        console := console s1 @ [Clear, RecordsCreated (movieCount s1) (batchCount s1 + 1)]\<rparr>)
              else s1))"

definition withScan :: "scanner \<Rightarrow> ingestState \<Rightarrow> ingestState" where
  "withScan k s =
     s\<lparr>openBraces := openBraces k, inQuotes := inQuotes k, escapeNext := escapeNext k,
       objectBuffer := buffer k\<rparr>"

text \<open>
  A parser for the three objects \<open>{"id":1}\<close>, \<open>{"id":2}\<close> and \<open>{"id":3}\<close>; on every
  other text it throws.
\<close>

definition sampleParse :: "string \<Rightarrow> Movie option" where
  \<open>sampleParse s =
     (if s = ''{"id":1}'' then Some (sampleMovie 1)
      else if s = ''{"id":2}'' then Some (sampleMovie 2)
      else if s = ''{"id":3}'' then Some (sampleMovie 3)
      else None)\<close>

subsection \<open>Texts of balanced objects\<close>

text \<open>
  The texts on which the scanner is followed through a whole object. Inside a string
  literal an item is a plain character, which is neither a double quote nor a backslash,
  or a backslash with the character it escapes. A text is a character outside the
  strings, which is not a brace, a double quote or a backslash, or a string literal, or
  a list of texts in braces. Every JSON object is such a text in braces: its brackets,
  colons, commas, digits and white space are characters outside the strings. A line feed
  may stand between tokens; a carriage return is excluded, so that the lines of the text
  are the lines that \<open>readline\<close> delivers.
\<close>

datatype strItem = Plain char | Escaped char

datatype jtext = Chr char | Quoted "strItem list" | Braced "jtext list"

primrec renderItem :: "strItem \<Rightarrow> string" where
  "renderItem (Plain c) = [c]"
| "renderItem (Escaped c) = [BSL, c]"

primrec okItem :: "strItem \<Rightarrow> bool" where
  "okItem (Plain c) = (c \<noteq> DQ \<and> c \<noteq> BSL \<and> c \<noteq> CR)"
| "okItem (Escaped c) = (c \<noteq> NL \<and> c \<noteq> CR)"

primrec render :: "jtext \<Rightarrow> string" where
  "render (Chr c) = [c]"
| "render (Quoted items) = DQ # concat (map renderItem items) @ [DQ]"
| "render (Braced ts) = CHR ''{'' # concat (map render ts) @ [CHR ''}'']"

fun wellFormed :: "jtext \<Rightarrow> bool" where
  "wellFormed (Chr c) = (c \<noteq> BSL \<and> c \<noteq> DQ \<and> c \<noteq> CHR ''{'' \<and> c \<noteq> CHR ''}'' \<and> c \<noteq> CR)"
| "wellFormed (Quoted items) = (\<forall>i \<in> set items. okItem i)"
| "wellFormed (Braced ts) = (\<forall>t \<in> set ts. wellFormed t)"

text \<open>The lines of a text: it is cut at every line feed.\<close>

fun splitLines :: "string \<Rightarrow> string list" where
  "splitLines [] = [[]]"
| "splitLines (c # cs) =
     (if c = NL then [] # splitLines cs
      else (case splitLines cs of [] \<Rightarrow> [[c]] | l # ls \<Rightarrow> (c # l) # ls))"

text \<open>
  The scanner on a text with its line feeds: at a line feed it does what \<open>scanLine\<close>
  does at the end of a line.
\<close>

definition endOfLine :: "scanner \<Rightarrow> scanner" where
  "endOfLine k = (if buffer k \<noteq> [] \<and> openBraces k > 0 then k\<lparr>buffer := buffer k @ [NL]\<rparr> else k)"

definition streamChar :: "scanner \<Rightarrow> char \<Rightarrow> scanner" where
  "streamChar k c = (if c = NL then endOfLine k else scanChar k c)"

text \<open>
  Where the scanner stands: inside a string of an open object, between the tokens of an
  open object, or outside every object.
\<close>

definition inString :: "scanner \<Rightarrow> bool" where
  "inString k \<longleftrightarrow> inQuotes k \<and> \<not> escapeNext k \<and> openBraces k \<ge> 1 \<and> buffer k \<noteq> []"

definition inObject :: "scanner \<Rightarrow> bool" where
  "inObject k \<longleftrightarrow> \<not> inQuotes k \<and> \<not> escapeNext k \<and> openBraces k \<ge> 1 \<and> buffer k \<noteq> []"

definition idle :: "scanner \<Rightarrow> bool" where
  "idle k \<longleftrightarrow> openBraces k = 0 \<and> \<not> inQuotes k \<and> \<not> escapeNext k"

text \<open>The part of \<open>sendMoviesToSurrealDB\<close> that follows the loop.\<close>

definition lastBatch :: "(number \<Rightarrow> string) \<Rightarrow> (store \<Rightarrow> dbop \<Rightarrow> bool) \<Rightarrow> ingestState \<Rightarrow> ingestState" where
  "lastBatch showNum fails s =
     (if length (currentBatch s) > 0 then
        (case sendBatchToSurrealDB showNum fails (db s) (currentBatch s) of
           (db', Some e) \<Rightarrow> s\<lparr>db := db', console := console s @ [ErrorLog e]\<rparr>
         | (db', None) \<Rightarrow>
             s\<lparr>db := db', batchCount := batchCount s + 1,
               console := console s @
                 [Clear, RecordsCreated (movieCount s) (batchCount s + 1),
                  Completed (movieCount s) (batchCount s + 1)]\<rparr>)
      else s\<lparr>console := console s @ [Completed (movieCount s) (batchCount s)]\<rparr>)"

text \<open>The object \<open>{"title":"A \"Great\" Movie"}\<close> of the specification.\<close>

definition greatMovie :: jtext where
  "greatMovie =
     Braced [Quoted (map Plain ''title''), Chr (CHR '':''),
             Quoted (map Plain ''A '' @ [Escaped DQ] @ map Plain ''Great'' @ [Escaped DQ] @
                     map Plain '' Movie'')]"

text \<open>A parser that accepts this one object.\<close>

definition titleParse :: "string \<Rightarrow> Movie option" where
  \<open>titleParse s =
     (if s = render greatMovie then Some ((sampleMovie 1)\<lparr>title := Some ''A "Great" Movie''\<rparr>) else None)\<close>

text \<open>The number of lines that \<open>console.error("Error parsing object:", err)\<close> prints for a \<open>SyntaxError\<close>.\<close>

definition syntaxErrors :: "logline list \<Rightarrow> nat" where
  "syntaxErrors ls = length (filter (\<lambda>l. l = ErrorParsingObject SyntaxError) ls)"

section \<open>Properties of \<open>escapeStr\<close>\<close>

lemma replaceAll_Nil: "replaceAll x r [] = []"
  by (simp add: replaceAll_def)

lemma replaceAll_Cons: "replaceAll x r (c # s) = (if c = x then r else [c]) @ replaceAll x r s"
  by (simp add: replaceAll_def)

lemma replaceAll_append: "replaceAll x r (s @ t) = replaceAll x r s @ replaceAll x r t"
  by (simp add: replaceAll_def)

lemma escapeStr_Some: "escapeStr (Some s) = concat (map escape1 s)"
proof -
  have "replaceAll FF [BSL, CHR ''f'']
                (replaceAll TAB [BSL, CHR ''t'']
                  (replaceAll CR [BSL, CHR ''r'']
                    (replaceAll NL [BSL, CHR ''n'']
                      (replaceAll SQ [BSL, SQ]
                        (replaceAll BSL [BSL, BSL] s))))) = concat (map escape1 s)"
    by (induction s) (simp_all add: replaceAll_Nil replaceAll_Cons replaceAll_append escape1_def)
  then show ?thesis by (cases s) (simp_all add: escapeStr_def)
qed

lemma quotesEscaped_append:
  assumes "quotesEscaped a" "quotesEscaped b"
  shows "quotesEscaped (a @ b)"
  unfolding quotesEscaped_def
proof (intro allI impI)
  fix i assume i: "i < length (a @ b)" and q: "(a @ b) ! i = SQ"
  show "0 < i \<and> (a @ b) ! (i - 1) = BSL"
  proof (cases "i < length a")
    case True
    with q have "a ! i = SQ" by (simp add: nth_append)
    with assms(1) True have "0 < i \<and> a ! (i - 1) = BSL" by (simp add: quotesEscaped_def)
    moreover from this True have "i - 1 < length a" by simp
    ultimately show ?thesis by (simp add: nth_append)
  next
    case False
    define j where "j = i - length a"
    from False i have j: "j < length b" by (simp add: j_def)
    from False q have "b ! j = SQ" by (simp add: nth_append j_def)
    with assms(2) j have *: "0 < j \<and> b ! (j - 1) = BSL" by (simp add: quotesEscaped_def)
    then have "\<not> i - 1 < length a" and "i - 1 - length a = j - 1" by (auto simp: j_def)
    with * show ?thesis by (auto simp: nth_append j_def)
  qed
qed

lemma quotesEscaped_escape1: "quotesEscaped (escape1 c)"
  by (auto simp: quotesEscaped_def escape1_def less_Suc_eq)

lemma quotesEscaped_concat: "quotesEscaped (concat (map escape1 s))"
  by (induction s) (simp_all add: quotesEscaped_def[of "[]"] quotesEscaped_append quotesEscaped_escape1)

lemma set_escape1: "set (escape1 c) \<inter> {NL, CR, TAB, FF} = {}"
  by (auto simp: escape1_def)

lemma set_concat_escape1: "set (concat (map escape1 s)) \<inter> {NL, CR, TAB, FF} = {}"
  using set_escape1 by (induction s) auto

lemma backslashesBefore_snoc:
  "backslashesBefore (xs @ [c]) (Suc (length xs)) =
     (if c = BSL then Suc (backslashesBefore xs (length xs)) else 0)"
  by (simp add: backslashesBefore_def)

lemma backslashesBefore_left:
  "i \<le> length xs \<Longrightarrow> backslashesBefore (xs @ ys) i = backslashesBefore xs i"
  by (simp add: backslashesBefore_def)

lemma escape1_cases:
  "escape1 c = [BSL, BSL] \<and> c = BSL \<or>
   (\<exists>x. escape1 c = [BSL, x] \<and> x \<noteq> BSL \<and> c \<noteq> BSL \<and> (x = SQ \<longleftrightarrow> c = SQ)) \<or>
   escape1 c = [c] \<and> c \<noteq> BSL \<and> c \<noteq> SQ"
  by (auto simp: escape1_def)

lemma backslashes_even:
  "even (backslashesBefore (concat (map escape1 s)) (length (concat (map escape1 s))))"
proof (induction s rule: rev_induct)
  case Nil
  show ?case by (simp add: backslashesBefore_def)
next
  case (snoc c s)
  let ?P = "concat (map escape1 s)"
  from escape1_cases[of c] show ?case
  proof (elim disjE conjE exE)
    assume e: "escape1 c = [BSL, BSL]"
    have "backslashesBefore (?P @ [BSL, BSL]) (length (?P @ [BSL, BSL])) =
          Suc (Suc (backslashesBefore ?P (length ?P)))"
      by (simp add: backslashesBefore_def)
    with snoc e show ?thesis by simp
  next
    fix x assume e: "escape1 c = [BSL, x]" and x: "x \<noteq> BSL"
    have "backslashesBefore (?P @ [BSL, x]) (length (?P @ [BSL, x])) = 0"
      using x by (simp add: backslashesBefore_def)
    with e show ?thesis by simp
  next
    assume e: "escape1 c = [c]" and x: "c \<noteq> BSL"
    have "backslashesBefore (?P @ [c]) (length (?P @ [c])) = 0"
      using x by (simp add: backslashesBefore_def)
    with e show ?thesis by simp
  qed
qed

lemma quotes_odd:
  "\<forall>i<length (concat (map escape1 s)). concat (map escape1 s) ! i = SQ \<longrightarrow>
     odd (backslashesBefore (concat (map escape1 s)) i)"
proof (induction s rule: rev_induct)
  case Nil
  show ?case by simp
next
  case (snoc c s)
  let ?P = "concat (map escape1 s)"
  let ?e = "escape1 c"
  have r: "concat (map escape1 (s @ [c])) = ?P @ ?e" by simp
  show ?case unfolding r
  proof (intro allI impI)
    fix i assume i: "i < length (?P @ ?e)" and q: "(?P @ ?e) ! i = SQ"
    show "odd (backslashesBefore (?P @ ?e) i)"
    proof (cases "i < length ?P")
      case True
      with q have "?P ! i = SQ" by (simp add: nth_append)
      with snoc True have "odd (backslashesBefore ?P i)" by blast
      with True show ?thesis by (simp add: backslashesBefore_left)
    next
      case False
      then have q': "?e ! (i - length ?P) = SQ" and j: "i - length ?P < length ?e"
        using q i by (simp_all add: nth_append)
      from escape1_cases[of c] q' j have e: "?e = [BSL, SQ]" and i1: "i = Suc (length ?P)"
        using False by (auto simp: less_Suc_eq)
      have "backslashesBefore (?P @ [BSL, SQ]) (Suc (length ?P)) = Suc (backslashesBefore ?P (length ?P))"
        by (simp add: backslashesBefore_def)
      with backslashes_even[of s] show ?thesis unfolding e i1 by simp
    qed
  qed
qed

text \<open>
  Claim C10. For every argument, the result of \<open>escapeStr\<close> holds no line feed, carriage
  return, tab or form feed, and every single quote in it stands right after a backslash.
  Backslashes are escaped before quotes: the result is, character by character, the
  escaped form of the argument, in which a backslash becomes two backslashes and a quote
  becomes a backslash and the quote; so the backslashes in a row before a quote are odd
  in number, and the backslash before the quote is not itself escaped. For \<open>undefined\<close>
  and for the empty string the result is the empty string.
\<close>

theorem escapeStr_safe:
  "NL \<notin> set (escapeStr str) \<and> CR \<notin> set (escapeStr str) \<and>
   TAB \<notin> set (escapeStr str) \<and> FF \<notin> set (escapeStr str) \<and>
   (\<forall>i<length (escapeStr str). escapeStr str ! i = SQ \<longrightarrow> 0 < i \<and> escapeStr str ! (i - 1) = BSL) \<and>
   (\<forall>i<length (escapeStr str). escapeStr str ! i = SQ \<longrightarrow> odd (backslashesBefore (escapeStr str) i)) \<and>
   (\<forall>s. escapeStr (Some s) = concat (map escape1 s)) \<and>
   escapeStr None = [] \<and> escapeStr (Some []) = []"
proof (cases str)
  case None
  have "escapeStr None = []" by (simp add: escapeStr_def)
  then show ?thesis unfolding None by (simp add: escapeStr_Some)
next
  case (Some s)
  have e: "escapeStr None = []" by (simp add: escapeStr_def)
  from set_concat_escape1[of s] quotesEscaped_concat[of s] quotes_odd[of s] show ?thesis
    unfolding Some escapeStr_Some quotesEscaped_def by (auto simp: e)
qed

text \<open>
  The text \<open>\'\<close>, a backslash and a quote, becomes three backslashes and the quote.
\<close>

theorem escapeStr_safe_witness:
  "escapeStr (Some [BSL, SQ]) = [BSL, BSL, BSL, SQ] \<and>
   escapeStr (Some [BSL, SQ]) ! (3 - 1) = BSL \<and>
   odd (backslashesBefore (escapeStr (Some [BSL, SQ])) 3)"
proof -
  note t = escapeStr_safe[of "Some [BSL, SQ]"]
  from t have e: "escapeStr (Some [BSL, SQ]) = [BSL, BSL, BSL, SQ]"
    by (simp add: escape1_def)
  from t have "\<forall>i<length (escapeStr (Some [BSL, SQ])). escapeStr (Some [BSL, SQ]) ! i = SQ \<longrightarrow>
      0 < i \<and> escapeStr (Some [BSL, SQ]) ! (i - 1) = BSL"
    and "\<forall>i<length (escapeStr (Some [BSL, SQ])). escapeStr (Some [BSL, SQ]) ! i = SQ \<longrightarrow>
      odd (backslashesBefore (escapeStr (Some [BSL, SQ])) i)"
    by blast+
  then have "escapeStr (Some [BSL, SQ]) ! 3 = SQ \<longrightarrow>
      escapeStr (Some [BSL, SQ]) ! (3 - 1) = BSL \<and> odd (backslashesBefore (escapeStr (Some [BSL, SQ])) 3)"
    using e by simp
  with e show ?thesis by simp
qed

text \<open>
  The order of the replacements matters. With the quotes escaped first, the backslash put
  before a quote would be doubled by the next replacement, and the quote left bare after
  two backslashes.
\<close>

lemma quotes_first_leaves_bare_quote:
  "replaceAll BSL [BSL, BSL] (replaceAll SQ [BSL, SQ] [SQ]) = [BSL, BSL, SQ] \<and>
   even (backslashesBefore (replaceAll BSL [BSL, BSL] (replaceAll SQ [BSL, SQ] [SQ])) 2) \<and>
   replaceAll BSL [BSL, BSL] (replaceAll SQ [BSL, SQ] [SQ]) \<noteq> concat (map escape1 [SQ])"
  by (simp add: replaceAll_def backslashesBefore_def escape1_def)

section \<open>The defaults of \<open>formatMovieForDB\<close>\<close>

text \<open>
  Claim C7, amended. In the object that \<open>formatMovieForDB\<close> builds, an absent or falsy
  \<open>budget\<close>, \<open>revenue\<close>, \<open>runtime\<close> or \<open>vote_average\<close> is 0; an absent or falsy
  \<open>title\<close>, \<open>overview\<close> or \<open>tagline\<close> is the empty string; an absent or falsy
  \<open>poster_path\<close> is the text \<open>/empty\<close>; an absent or falsy \<open>release_date\<close> is the date
  \<open>0001-01-01\<close>; an absent or empty \<open>genres\<close> list is the one-element list \<open>genre:0\<close>,
  and the \<open>genre\<close> list is never empty.
\<close>

theorem formatMovieForDB_defaults:
  "(let f = map_of (formatMovieForDB showNum m) in
     (budget m = None \<or> budget m = Some 0 \<longrightarrow> f ''budget'' = Some (Num 0)) \<and>
     (revenue m = None \<or> revenue m = Some 0 \<longrightarrow> f ''revenue'' = Some (Num 0)) \<and>
     (runtime m = None \<or> runtime m = Some 0 \<longrightarrow> f ''runtime'' = Some (Num 0)) \<and>
     (vote_average m = None \<or> vote_average m = Some 0 \<longrightarrow> f ''vote_average'' = Some (Num 0)) \<and>
     (title m = None \<or> title m = Some [] \<longrightarrow> f ''title'' = Some (Str [])) \<and>
     (overview m = None \<or> overview m = Some [] \<longrightarrow> f ''overview'' = Some (Str [])) \<and>
     (tagline m = None \<or> tagline m = Some [] \<longrightarrow> f ''tagline'' = Some (Str [])) \<and>
     (poster_path m = None \<or> poster_path m = Some [] \<longrightarrow> f ''poster'' = Some (Str ''/empty'')) \<and>
     (release_date m = None \<or> release_date m = Some [] \<longrightarrow>
        f ''release_date'' = Some (Date ''0001-01-01'')) \<and>
     (genres m = None \<or> genres m = Some [] \<longrightarrow> f ''genre'' = Some (Strs [''genre:0''])) \<and>
     (\<forall>gs. f ''genre'' = Some (Strs gs) \<longrightarrow> gs \<noteq> []))"
  by (auto simp: formatMovieForDB_def Let_def orNum_def orStr_def split: option.splits)

theorem formatMovieForDB_defaults_witness:
  "budget (sampleMovie 1) = None \<and> title (sampleMovie 1) = None \<and>
   poster_path (sampleMovie 1) = None \<and> release_date (sampleMovie 1) = None \<and>
   genres (sampleMovie 1) = None \<and>
   map_of (formatMovieForDB showDigit (sampleMovie 1)) ''budget'' = Some (Num 0) \<and>
   map_of (formatMovieForDB showDigit (sampleMovie 1)) ''title'' = Some (Str []) \<and>
   map_of (formatMovieForDB showDigit (sampleMovie 1)) ''poster'' = Some (Str ''/empty'') \<and>
   map_of (formatMovieForDB showDigit (sampleMovie 1)) ''release_date'' = Some (Date ''0001-01-01'') \<and>
   map_of (formatMovieForDB showDigit (sampleMovie 1)) ''genre'' = Some (Strs [''genre:0''])"
proof -
  have a: "budget (sampleMovie 1) = None" "title (sampleMovie 1) = None"
    "poster_path (sampleMovie 1) = None" "release_date (sampleMovie 1) = None"
    "genres (sampleMovie 1) = None"
    by (simp_all add: sampleMovie_def)
  from formatMovieForDB_defaults[of showDigit "sampleMovie 1"] a show ?thesis
    by (simp add: Let_def)
qed

text \<open>
  Claim C7 as stated says that every absent optional string field becomes the empty
  string. \<open>poster_path\<close> is an optional string field, and its default is \<open>/empty\<close>.
\<close>

theorem poster_default_counterexample:
  "poster_path (sampleMovie 1) = None \<and>
   map_of (formatMovieForDB showDigit (sampleMovie 1)) ''poster'' \<noteq> Some (Str [])"
  by (simp add: formatMovieForDB_def sampleMovie_def orStr_def)

text \<open>
  Claim C8 as stated gives an absent single reference a \<open>kind:0\<close> sentinel. An absent
  collection becomes \<open>null\<close>, and an absent language becomes \<open>language:en\<close>.
\<close>

theorem single_reference_counterexample:
  "belongs_to_collection (sampleMovie 1) = None \<and> original_language (sampleMovie 1) = None \<and>
   map_of (formatMovieForDB showDigit (sampleMovie 1)) ''collection'' = Some Null \<and>
   map_of (formatMovieForDB showDigit (sampleMovie 1)) ''language'' = Some (Str ''language:en'')"
  by (simp add: formatMovieForDB_def sampleMovie_def orStr_def)

text \<open>
  Claim C8, amended. A collection that is present is written \<open>collection:id\<close>, an absent
  one is \<open>null\<close>; a language that is present and not empty is written \<open>language:code\<close>,
  an absent or empty one is \<open>language:en\<close>.
\<close>

theorem formatMovieForDB_references:
  "(let f = map_of (formatMovieForDB showNum m) in
     (belongs_to_collection m = None \<longrightarrow> f ''collection'' = Some Null) \<and>
     (\<forall>c. belongs_to_collection m = Some c \<longrightarrow>
        f ''collection'' = Some (Str (''collection:'' @ showNum (collection_id c)))) \<and>
     (original_language m = None \<or> original_language m = Some [] \<longrightarrow>
        f ''language'' = Some (Str ''language:en'')) \<and>
     (\<forall>l. original_language m = Some l \<and> l \<noteq> [] \<longrightarrow>
        f ''language'' = Some (Str (''language:'' @ l))))"
  by (auto simp: formatMovieForDB_def Let_def orStr_def split: option.splits)

theorem formatMovieForDB_references_witness:
  "map_of (formatMovieForDB showDigit
       ((sampleMovie 1)\<lparr>original_language := Some ''fr'',
          belongs_to_collection := Some \<lparr>collection_id = 2, collection_name = None,
             collection_poster_path = None, collection_backdrop_path = None\<rparr>\<rparr>)) ''collection''
     = Some (Str ''collection:2'') \<and>
   map_of (formatMovieForDB showDigit
       ((sampleMovie 1)\<lparr>original_language := Some ''fr'',
          belongs_to_collection := Some \<lparr>collection_id = 2, collection_name = None,
             collection_poster_path = None, collection_backdrop_path = None\<rparr>\<rparr>)) ''language''
     = Some (Str ''language:fr'') \<and>
   map_of (formatMovieForDB showDigit (sampleMovie 1)) ''collection'' = Some Null \<and>
   map_of (formatMovieForDB showDigit (sampleMovie 1)) ''language'' = Some (Str ''language:en'')"
proof -
  have a: "belongs_to_collection (sampleMovie 1) = None" "original_language (sampleMovie 1) = None"
    by (simp_all add: sampleMovie_def)
  from formatMovieForDB_references[of showDigit "sampleMovie 1"] a
  have 1: "map_of (formatMovieForDB showDigit (sampleMovie 1)) ''collection'' = Some Null \<and>
   map_of (formatMovieForDB showDigit (sampleMovie 1)) ''language'' = Some (Str ''language:en'')"
    by (simp add: Let_def)
  from formatMovieForDB_references[of showDigit "(sampleMovie 1)\<lparr>original_language := Some ''fr'',
          belongs_to_collection := Some \<lparr>collection_id = 2, collection_name = None,
             collection_poster_path = None, collection_backdrop_path = None\<rparr>\<rparr>"]
  show ?thesis using 1 by (simp add: Let_def showDigit_def)
qed

text \<open>
  \<open>formatMovieObject\<close> on an object that holds only an id: the same defaults, with the
  text \<open>NULL\<close> for the absent collection.
\<close>

lemma formatMovieObject_defaults:
  "formatMovieObject showDigit (sampleMovie 1) =
     concat
       [''  {'', [NL],
        ''    id: 1,'', [NL],
        ''    title: '', [SQ, SQ], '','', [NL],
        ''    budget: 0,'', [NL],
        ''    overview: '', [SQ, SQ], '','', [NL],
        ''    poster: '', [SQ], ''/empty'', [SQ], '','', [NL],
        ''    release_date: <datetime>'', [SQ], ''0001-01-01'', [SQ], '','', [NL],
        ''    revenue: 0,'', [NL],
        ''    runtime: 0,'', [NL],
        ''    tagline: '', [SQ, SQ], '','', [NL],
        ''    vote_average: 0,'', [NL],
        ''    language: language:en,'', [NL],
        ''    genre: [genre:0],'', [NL],
        ''    collection: NULL'', [NL],
        ''  }'']"
  by (simp add: formatMovieObject_def sampleMovie_def showDigit_def orStr_def orNum_def
      escapeStr_def replaceAll_def Let_def)

section \<open>One call of \<open>sendBatchToSurrealDB\<close>\<close>

lemma createAll_staged:
  "pending st = Some p \<Longrightarrow> createAll fails st rs = (st', r) \<Longrightarrow>
     committed st' = committed st \<and> (\<exists>q. pending st' = Some q) \<and>
     (r = None \<longrightarrow> pending st' = Some (p @ rs))"
proof (induction rs arbitrary: st p)
  case Nil
  then show ?case by simp
next
  case (Cons a rs)
  show ?case
  proof (cases "fails st (Create a)")
    case True
    with Cons.prems show ?thesis by (auto simp: dbExec_def)
  next
    case False
    let ?st1 = "st\<lparr>pending := Some (p @ [a])\<rparr>"
    from False Cons.prems have "createAll fails ?st1 rs = (st', r)"
      by (simp add: dbExec_def applyOp_def)
    from Cons.IH[OF _ this, of "p @ [a]"] show ?thesis by simp
  qed
qed

lemma createAll_rejected:
  "x \<in> set rs \<Longrightarrow> \<forall>st. fails st (Create x) \<Longrightarrow> snd (createAll fails st rs) \<noteq> None"
  by (induction rs arbitrary: st) (auto simp: dbExec_def)

lemma sendBatch_result:
  assumes "sendBatchToSurrealDB showNum fails st ms = (st', r)"
  shows "(r = None \<longrightarrow> committed st' = committed st @ [map (formatMovieForDB showNum) ms] \<and> pending st' = None) \<and>
         (r \<noteq> None \<longrightarrow> committed st' = committed st) \<and>
         (r \<noteq> None \<and> \<not> fails st' Cancel \<longrightarrow> fails st Begin \<or> pending st' = None)"
proof (cases "fails st Begin")
  case True
  with assms show ?thesis by (auto simp: sendBatchToSurrealDB_def dbExec_def)
next
  case False
  let ?st1 = "st\<lparr>pending := Some []\<rparr>"
  obtain st2 r2 where c: "createAll fails ?st1 (map (formatMovieForDB showNum) ms) = (st2, r2)"
    by (cases "createAll fails ?st1 (map (formatMovieForDB showNum) ms)") auto
  from createAll_staged[OF _ c, of "[]"]
  have c2: "committed st2 = committed st" "\<exists>q. pending st2 = Some q"
    "r2 = None \<longrightarrow> pending st2 = Some (map (formatMovieForDB showNum) ms)"
    by simp_all
  from assms False c c2 show ?thesis
    by (auto simp: sendBatchToSurrealDB_def dbExec_def applyOp_def split: if_splits option.splits)
qed

lemma sendBatch_rejected:
  assumes "m \<in> set ms" "\<forall>st. fails st (Create (formatMovieForDB showNum m))"
  shows "snd (sendBatchToSurrealDB showNum fails st ms) \<noteq> None"
proof (cases "fails st Begin")
  case True
  then show ?thesis by (simp add: sendBatchToSurrealDB_def dbExec_def)
next
  case False
  from assms have "formatMovieForDB showNum m \<in> set (map (formatMovieForDB showNum) ms)" by simp
  with assms(2) have "snd (createAll fails (st\<lparr>pending := Some []\<rparr>) (map (formatMovieForDB showNum) ms)) \<noteq> None"
    using createAll_rejected[of "formatMovieForDB showNum m" "map (formatMovieForDB showNum) ms" fails] by blast
  then show ?thesis using False
    by (auto simp: sendBatchToSurrealDB_def dbExec_def applyOp_def split: prod.splits option.splits)
qed

text \<open>
  Claim C6. One call of \<open>sendBatchToSurrealDB\<close> is all or nothing. When it returns
  normally, the store has one more committed transaction, which holds the formatted
  movies of the batch in order, and no transaction is open. When it throws, the committed
  transactions are those from before the call, so the batch contributes no record and
  the earlier batches stay as they were; the transaction it opened has been cancelled
  (unless the \<open>BEGIN\<close> or the \<open>CANCEL\<close> call itself was rejected). A batch with a
  record that the database rejects always makes the call throw to its caller.
\<close>

theorem sendBatch_all_or_nothing:
  "(let (st', r) = sendBatchToSurrealDB showNum fails st ms in
     (r = None \<longrightarrow>
        committed st' = committed st @ [map (formatMovieForDB showNum) ms] \<and> pending st' = None) \<and>
     (r \<noteq> None \<longrightarrow> committed st' = committed st) \<and>
     (r \<noteq> None \<and> \<not> fails st Begin \<and> \<not> fails st' Cancel \<longrightarrow> pending st' = None) \<and>
     ((\<exists>m \<in> set ms. \<forall>st. fails st (Create (formatMovieForDB showNum m))) \<longrightarrow> r \<noteq> None))"
proof -
  obtain st' r where e: "sendBatchToSurrealDB showNum fails st ms = (st', r)"
    by (cases "sendBatchToSurrealDB showNum fails st ms") auto
  from sendBatch_result[OF e] sendBatch_rejected[of _ ms fails showNum st] e
  show ?thesis by auto
qed

text \<open>
  A store with one committed transaction. The batch of three whose second record is
  rejected throws and leaves the store as it was; a batch of two that is accepted becomes
  the second transaction.
\<close>

theorem sendBatch_all_or_nothing_witness:
  "sendBatchToSurrealDB showDigit rejectsSecond
          \<lparr>committed = [[formatMovieForDB showDigit (sampleMovie 3)]], pending = None\<rparr>
          [sampleMovie 1, sampleMovie 2, sampleMovie 3]
     = (\<lparr>committed = [[formatMovieForDB showDigit (sampleMovie 3)]], pending = None\<rparr>,
        Some (DbFailure (Create (formatMovieForDB showDigit (sampleMovie 2))))) \<and>
   sendBatchToSurrealDB showDigit neverFails
          \<lparr>committed = [[formatMovieForDB showDigit (sampleMovie 3)]], pending = None\<rparr>
          [sampleMovie 1, sampleMovie 2]
     = (\<lparr>committed = [[formatMovieForDB showDigit (sampleMovie 3)],
                       [formatMovieForDB showDigit (sampleMovie 1), formatMovieForDB showDigit (sampleMovie 2)]],
         pending = None\<rparr>, None)"
proof -
  let ?st = "\<lparr>committed = [[formatMovieForDB showDigit (sampleMovie 3)]], pending = None\<rparr>"
  let ?ms = "[sampleMovie 1, sampleMovie 2, sampleMovie 3]"
  obtain st' r where e: "sendBatchToSurrealDB showDigit rejectsSecond ?st ?ms = (st', r)"
    by (cases "sendBatchToSurrealDB showDigit rejectsSecond ?st ?ms") auto
  have rej: "\<exists>m \<in> set ?ms. \<forall>st. rejectsSecond st (Create (formatMovieForDB showDigit m))"
    by (simp add: rejectsSecond_def)
  have nb: "\<not> rejectsSecond ?st Begin" "\<not> rejectsSecond st' Cancel"
    by (simp_all add: rejectsSecond_def)
  from sendBatch_all_or_nothing[of showDigit rejectsSecond ?st ?ms] e rej nb
  have 1: "r \<noteq> None" "committed st' = committed ?st" "pending st' = None"
    by (auto simp: Let_def)
  have f: "formatMovieForDB showDigit (sampleMovie 1) \<noteq> formatMovieForDB showDigit (sampleMovie 2)"
    by (simp add: formatMovieForDB_def sampleMovie_def)
  have 2: "r = Some (DbFailure (Create (formatMovieForDB showDigit (sampleMovie 2))))"
    using e f by (simp add: sendBatchToSurrealDB_def dbExec_def applyOp_def rejectsSecond_def)
  obtain st2 r2 where e2: "sendBatchToSurrealDB showDigit neverFails ?st [sampleMovie 1, sampleMovie 2] = (st2, r2)"
    by (cases "sendBatchToSurrealDB showDigit neverFails ?st [sampleMovie 1, sampleMovie 2]") auto
  have r2: "r2 = None"
    using e2 by (simp add: sendBatchToSurrealDB_def dbExec_def applyOp_def neverFails_def)
  from sendBatch_all_or_nothing[of showDigit neverFails ?st "[sampleMovie 1, sampleMovie 2]"] e2 r2
  have 3: "committed st2 = committed ?st @ [map (formatMovieForDB showDigit) [sampleMovie 1, sampleMovie 2]]"
     "pending st2 = None"
    by (auto simp: Let_def)
  from 1 2 3 r2 show ?thesis unfolding e e2 by simp
qed

section \<open>The loop as a scanner feeding a decoder\<close>

lemma completeObject_decodeSpan:
  "completeObject showNum parse fails B s =
   (decodeSpan showNum parse fails B s (objectBuffer s))\<lparr>objectBuffer := []\<rparr>"
  by (simp add: completeObject_def decodeSpan_def Let_def split: option.splits prod.splits)

lemma decodeSpan_openBraces_update:
  "decodeSpan showNum parse fails B (openBraces_update f s) sp =
   openBraces_update f (decodeSpan showNum parse fails B s sp)"
  by (simp add: decodeSpan_def Let_def split: option.splits prod.splits)

lemma decodeSpan_inQuotes_update:
  "decodeSpan showNum parse fails B (inQuotes_update f s) sp =
   inQuotes_update f (decodeSpan showNum parse fails B s sp)"
  by (simp add: decodeSpan_def Let_def split: option.splits prod.splits)

lemma decodeSpan_escapeNext_update:
  "decodeSpan showNum parse fails B (escapeNext_update f s) sp =
   escapeNext_update f (decodeSpan showNum parse fails B s sp)"
  by (simp add: decodeSpan_def Let_def split: option.splits prod.splits)

lemma decodeSpan_objectBuffer_update:
  "decodeSpan showNum parse fails B (objectBuffer_update f s) sp =
   objectBuffer_update f (decodeSpan showNum parse fails B s sp)"
  by (simp add: decodeSpan_def Let_def split: option.splits prod.splits)

lemmas decodeSpan_scan_updates =
  decodeSpan_openBraces_update decodeSpan_inQuotes_update decodeSpan_escapeNext_update
  decodeSpan_objectBuffer_update

lemma processChar_scan:
  "processChar showNum parse fails B (withScan k (foldl (decodeSpan showNum parse fails B) s0 (spans k))) c =
   withScan (scanChar k c) (foldl (decodeSpan showNum parse fails B) s0 (spans (scanChar k c)))"
  by (simp add: processChar_def scanChar_def withScan_def Let_def completeObject_decodeSpan
      decodeSpan_scan_updates)

lemma foldl_processChar_scan:
  "foldl (processChar showNum parse fails B)
      (withScan k (foldl (decodeSpan showNum parse fails B) s0 (spans k))) cs =
   withScan (foldl scanChar k cs) (foldl (decodeSpan showNum parse fails B) s0 (spans (foldl scanChar k cs)))"
  by (induction cs arbitrary: k) (simp_all add: processChar_scan)

lemma processLine_scan:
  "processLine showNum parse fails B
      (withScan k (foldl (decodeSpan showNum parse fails B) s0 (spans k))) line =
   withScan (scanLine k line) (foldl (decodeSpan showNum parse fails B) s0 (spans (scanLine k line)))"
  by (simp add: processLine_def scanLine_def foldl_processChar_scan Let_def) (simp add: withScan_def)

lemma foldl_processLine_scan:
  "foldl (processLine showNum parse fails B)
      (withScan k (foldl (decodeSpan showNum parse fails B) s0 (spans k))) ls =
   withScan (foldl scanLine k ls) (foldl (decodeSpan showNum parse fails B) s0 (spans (foldl scanLine k ls)))"
  by (induction ls arbitrary: k) (simp_all add: processLine_scan)

lemma readLoop_scan:
  "readLoop showNum parse fails B db0 lines =
   withScan (foldl scanLine scanner0 lines)
     (foldl (decodeSpan showNum parse fails B) (initialState db0) (spansOf lines))"
proof -
  have "initialState db0 = withScan scanner0 (foldl (decodeSpan showNum parse fails B) (initialState db0) (spans scanner0))"
    by (simp add: withScan_def scanner0_def initialState_def)
  then show ?thesis
    unfolding readLoop_def spansOf_def using foldl_processLine_scan[of showNum parse fails B scanner0 "initialState db0" lines]
    by simp
qed

section \<open>What the loop has committed and what it holds\<close>

lemma createAll_neverFails:
  "\<forall>st op. \<not> fails st op \<Longrightarrow> snd (createAll fails st rs) = None"
  by (induction rs arbitrary: st) (simp_all add: dbExec_def)

lemma sendBatch_neverFails:
  assumes "\<forall>st op. \<not> fails st op"
  shows "snd (sendBatchToSurrealDB showNum fails st ms) = None"
proof -
  obtain st2 r2 where c: "createAll fails (st\<lparr>pending := Some []\<rparr>) (map (formatMovieForDB showNum) ms) = (st2, r2)"
    by (cases "createAll fails (st\<lparr>pending := Some []\<rparr>) (map (formatMovieForDB showNum) ms)") auto
  with createAll_neverFails[OF assms, of "st\<lparr>pending := Some []\<rparr>" "map (formatMovieForDB showNum) ms"]
  have "r2 = None" by simp
  with c assms show ?thesis
    by (simp add: sendBatchToSurrealDB_def dbExec_def applyOp_def)
qed

lemma createAll_error: "createAll fails st rs = (st', Some e) \<Longrightarrow> \<exists>op. e = DbFailure op"
  by (induction rs arbitrary: st) (auto simp: dbExec_def split: if_splits)

lemma sendBatch_error:
  "sendBatchToSurrealDB showNum fails st ms = (st', Some e) \<Longrightarrow> \<exists>op. e = DbFailure op"
  by (auto simp: sendBatchToSurrealDB_def dbExec_def split: if_splits prod.splits option.splits
      dest: createAll_error)

lemma map_filter_snoc: "List.map_filter f (xs @ [x]) = List.map_filter f xs @ (case f x of None \<Rightarrow> [] | Some y \<Rightarrow> [y])"
  by (simp add: List.map_filter_def split: option.splits)

lemma decodeSpan_step:
  fixes B :: int
  assumes c: "committed (db s) = committed db0 @ new"
    and b: "concat new @ map (formatMovieForDB showNum) (currentBatch s) = map (formatMovieForDB showNum) ms"
    and n: "batchCount s = length new"
    and m: "movieCount s = length ms"
    and z: "(\<forall>st op. \<not> fails st op) \<and> 0 < B \<longrightarrow>
              (\<forall>b\<in>set new. int (length b) = B) \<and> int (length (currentBatch s)) < B"
  shows "\<exists>new'. committed (db (decodeSpan showNum parse fails B s sp)) = committed db0 @ new' \<and>
           concat new' @ map (formatMovieForDB showNum) (currentBatch (decodeSpan showNum parse fails B s sp))
             = map (formatMovieForDB showNum) (ms @ (case parse sp of None \<Rightarrow> [] | Some y \<Rightarrow> [y])) \<and>
           batchCount (decodeSpan showNum parse fails B s sp) = length new' \<and>
           movieCount (decodeSpan showNum parse fails B s sp) = length (ms @ (case parse sp of None \<Rightarrow> [] | Some y \<Rightarrow> [y])) \<and>
           ((\<forall>st op. \<not> fails st op) \<and> 0 < B \<longrightarrow>
              (\<forall>b\<in>set new'. int (length b) = B) \<and>
              int (length (currentBatch (decodeSpan showNum parse fails B s sp))) < B)"
proof (cases "parse sp")
  case None
  with c b n m z show ?thesis by (simp add: decodeSpan_def)
next
  case (Some mv)
  let ?cb = "currentBatch s @ [mv]"
  show ?thesis
  proof (cases "int (length ?cb) \<ge> B")
    case False
    with Some c b n m z show ?thesis
      by (intro exI[of _ new]) (auto simp: decodeSpan_def Let_def)
  next
    case True
    obtain st' r where e: "sendBatchToSurrealDB showNum fails (db s) ?cb = (st', r)"
      by (cases "sendBatchToSurrealDB showNum fails (db s) ?cb") auto
    note res = sendBatch_result[OF e]
    show ?thesis
    proof (cases r)
      case None
      with res have c': "committed st' = committed (db s) @ [map (formatMovieForDB showNum) ?cb]" by simp
      have len: "(\<forall>st op. \<not> fails st op) \<and> 0 < B \<longrightarrow> int (length ?cb) = B"
        using z True by auto
      from Some True e None c c' b n m z len show ?thesis
        by (intro exI[of _ "new @ [map (formatMovieForDB showNum) ?cb]"])
           (auto simp: decodeSpan_def Let_def simp flip: append_assoc)
    next
      case (Some err)
      have nf: "\<not> (\<forall>st op. \<not> fails st op)"
        using sendBatch_neverFails[of fails showNum "db s" ?cb] e Some by auto
      from res Some have c': "committed st' = committed (db s)" by simp
      from \<open>parse sp = Some mv\<close> True e Some c c' b n m nf show ?thesis
        by (intro exI[of _ new]) (auto simp: decodeSpan_def Let_def)
    qed
  qed
qed

lemma feed_invariant:
  fixes B :: int
  shows "\<exists>new. committed (db (foldl (decodeSpan showNum parse fails B) (initialState db0) sps)) = committed db0 @ new \<and>
           concat new @ map (formatMovieForDB showNum)
              (currentBatch (foldl (decodeSpan showNum parse fails B) (initialState db0) sps))
             = map (formatMovieForDB showNum) (List.map_filter parse sps) \<and>
           batchCount (foldl (decodeSpan showNum parse fails B) (initialState db0) sps) = length new \<and>
           movieCount (foldl (decodeSpan showNum parse fails B) (initialState db0) sps) = length (List.map_filter parse sps) \<and>
           ((\<forall>st op. \<not> fails st op) \<and> 0 < B \<longrightarrow>
              (\<forall>b\<in>set new. int (length b) = B) \<and>
              int (length (currentBatch (foldl (decodeSpan showNum parse fails B) (initialState db0) sps))) < B)"
proof (induction sps rule: rev_induct)
  case Nil
  show ?case by (simp add: initialState_def List.map_filter_def)
next
  case (snoc sp sps)
  then obtain new where
    "committed (db (foldl (decodeSpan showNum parse fails B) (initialState db0) sps)) = committed db0 @ new"
    "concat new @ map (formatMovieForDB showNum)
              (currentBatch (foldl (decodeSpan showNum parse fails B) (initialState db0) sps))
             = map (formatMovieForDB showNum) (List.map_filter parse sps)"
    "batchCount (foldl (decodeSpan showNum parse fails B) (initialState db0) sps) = length new"
    "movieCount (foldl (decodeSpan showNum parse fails B) (initialState db0) sps) = length (List.map_filter parse sps)"
    "(\<forall>st op. \<not> fails st op) \<and> 0 < B \<longrightarrow>
              (\<forall>b\<in>set new. int (length b) = B) \<and>
              int (length (currentBatch (foldl (decodeSpan showNum parse fails B) (initialState db0) sps))) < B"
    by blast
  from decodeSpan_step[OF this, of parse sp] show ?case
    by (simp only: foldl_append foldl_Cons foldl_Nil map_filter_snoc)
qed

section \<open>Batch sizes\<close>

lemma length_concat_const: "\<forall>b\<in>set xs. length b = n \<Longrightarrow> length (concat xs) = n * length xs"
  by (induction xs) simp_all

lemma readLoop_fields:
  "db (readLoop showNum parse fails B db0 lines) =
     db (foldl (decodeSpan showNum parse fails B) (initialState db0) (spansOf lines))"
  "currentBatch (readLoop showNum parse fails B db0 lines) =
     currentBatch (foldl (decodeSpan showNum parse fails B) (initialState db0) (spansOf lines))"
  "movieCount (readLoop showNum parse fails B db0 lines) =
     movieCount (foldl (decodeSpan showNum parse fails B) (initialState db0) (spansOf lines))"
  "batchCount (readLoop showNum parse fails B db0 lines) =
     batchCount (foldl (decodeSpan showNum parse fails B) (initialState db0) (spansOf lines))"
  "console (readLoop showNum parse fails B db0 lines) =
     console (foldl (decodeSpan showNum parse fails B) (initialState db0) (spansOf lines))"
  by (simp_all add: readLoop_scan withScan_def)

lemma readLoop_invariant:
  fixes B :: int
  shows "\<exists>new. committed (db (readLoop showNum parse fails B db0 lines)) = committed db0 @ new \<and>
           concat new @ map (formatMovieForDB showNum) (currentBatch (readLoop showNum parse fails B db0 lines))
             = map (formatMovieForDB showNum) (decodedMovies parse lines) \<and>
           batchCount (readLoop showNum parse fails B db0 lines) = length new \<and>
           movieCount (readLoop showNum parse fails B db0 lines) = length (decodedMovies parse lines) \<and>
           ((\<forall>st op. \<not> fails st op) \<and> 0 < B \<longrightarrow>
              (\<forall>b\<in>set new. int (length b) = B) \<and>
              int (length (currentBatch (readLoop showNum parse fails B db0 lines))) < B)"
  unfolding readLoop_fields decodedMovies_def by (rule feed_invariant)

lemma ceil_div_exact: "0 < (B::nat) \<Longrightarrow> (B * n + B - 1) div B = n"
  by (rule div_nat_eqI) simp_all

lemma ceil_div_rest: "0 < c \<Longrightarrow> c < (B::nat) \<Longrightarrow> (B * n + c + B - 1) div B = n + 1"
  by (rule div_nat_eqI) simp_all

text \<open>
  The batches of a run in which the database accepts every call. Let the batch size \<open>B\<close>
  be positive. The batches dispatched are then the transactions that the run adds to the
  store. For \<open>M\<close> decoded movies there are \<open>(M + B - 1) div B\<close> of them, that is
  \<open>M / B\<close> rounded up; together they hold the decoded movies in order; every batch but
  the last has size \<open>B\<close>; the last has size \<open>M mod B\<close>, or \<open>B\<close> when \<open>B\<close> divides
  \<open>M\<close>; with \<open>M = 0\<close> there is none. A batch left open by the loop is dispatched as the
  last one, and an empty one is not dispatched.
\<close>

theorem batch_sizing:
  fixes B :: nat
  assumes B: "0 < B" and ok: "\<forall>st op. \<not> fails st op"
  shows "(let r = readLoop showNum parse fails (int B) db0 lines;
              s = sendMoviesToSurrealDB showNum parse fails db0 lines (int B);
              M = length (decodedMovies parse lines);
              bs = drop (length (committed db0)) (committed (db s))
          in committed (db s) = committed db0 @ bs \<and>
             concat bs = map (formatMovieForDB showNum) (decodedMovies parse lines) \<and>
             length bs = (M + B - 1) div B \<and>
             (\<forall>i. i + 1 < length bs \<longrightarrow> length (bs ! i) = B) \<and>
             (bs \<noteq> [] \<longrightarrow> length (last bs) = (if M mod B = 0 then B else M mod B)) \<and>
             (M = 0 \<longrightarrow> bs = []) \<and>
             (currentBatch r \<noteq> [] \<longrightarrow>
                committed (db s) = committed (db r) @ [map (formatMovieForDB showNum) (currentBatch r)]) \<and>
             (currentBatch r = [] \<longrightarrow> db s = db r) \<and>
             batchCount s = length bs \<and> movieCount s = M)"
proof -
  define r where "r = readLoop showNum parse fails (int B) db0 lines"
  define s where "s = sendMoviesToSurrealDB showNum parse fails db0 lines (int B)"
  define ms where "ms = decodedMovies parse lines"
  define cb where "cb = currentBatch r"
  from readLoop_invariant[of showNum parse fails "int B" db0 lines] B ok
  obtain new where
    c: "committed (db r) = committed db0 @ new" and
    cc: "concat new @ map (formatMovieForDB showNum) cb = map (formatMovieForDB showNum) ms" and
    bc: "batchCount r = length new" and
    mc: "movieCount r = length ms" and
    sz: "\<forall>b\<in>set new. length b = B" and
    lt: "length cb < B"
    unfolding r_def ms_def cb_def by auto
  have "length (concat new @ map (formatMovieForDB showNum) cb) = length ms"
    using cc by (metis length_map)
  then have M: "length ms = B * length new + length cb"
    using length_concat_const[OF sz] by simp
  show ?thesis
  proof (cases "cb = []")
    case True
    then have s: "db s = db r" "batchCount s = batchCount r" "movieCount s = movieCount r"
      unfolding s_def sendMoviesToSurrealDB_def r_def cb_def by (simp_all add: Let_def)
    have bs: "drop (length (committed db0)) (committed (db s)) = new" using s c by simp
    have len: "(length ms + B - 1) div B = length new"
      using M True ceil_div_exact[OF B, of "length new"] by simp
    have last: "new \<noteq> [] \<longrightarrow> length (last new) = B" using sz by simp
    have nth: "\<forall>i. i + 1 < length new \<longrightarrow> length (new ! i) = B" using sz by simp
    have zero: "length ms = 0 \<longrightarrow> new = []" using M B True by simp
    have md: "length ms mod B = 0" using M True by simp
    from True s c cc bc mc bs len last nth zero md show ?thesis
      unfolding Let_def r_def[symmetric] s_def[symmetric] ms_def[symmetric] cb_def[symmetric]
      by simp
  next
    case False
    obtain st' e where sb: "sendBatchToSurrealDB showNum fails (db r) cb = (st', e)"
      by (cases "sendBatchToSurrealDB showNum fails (db r) cb") auto
    with sendBatch_neverFails[OF ok, of showNum "db r" cb] have e: "e = None" by simp
    with sendBatch_result[OF sb] have c': "committed st' = committed (db r) @ [map (formatMovieForDB showNum) cb]"
      by simp
    from False sb e have s: "db s = st'" "batchCount s = batchCount r + 1" "movieCount s = movieCount r"
      unfolding s_def sendMoviesToSurrealDB_def r_def cb_def by (simp_all add: Let_def)
    let ?bs = "new @ [map (formatMovieForDB showNum) cb]"
    have bs: "drop (length (committed db0)) (committed (db s)) = ?bs" using s c c' by simp
    have cpos: "0 < length cb" using False by simp
    have len: "(length ms + B - 1) div B = length ?bs"
      using M ceil_div_rest[OF cpos lt, of "length new"] by simp
    have md: "length ms mod B = length cb" using M lt by simp
    have last: "length (last ?bs) = (if length ms mod B = 0 then B else length ms mod B)"
      using md cpos by simp
    have nth: "\<forall>i. i + 1 < length ?bs \<longrightarrow> length (?bs ! i) = B"
      using sz by (simp add: nth_append)
    have conc: "concat ?bs = map (formatMovieForDB showNum) ms" using cc by simp
    have zero: "length ms \<noteq> 0" using M cpos by simp
    have comm: "committed (db s) = committed db0 @ ?bs" using s c c' by simp
    have bcs: "batchCount s = length ?bs" using s bc by simp
    from False s c' bs len last nth conc zero comm bcs mc show ?thesis
      unfolding Let_def r_def[symmetric] s_def[symmetric] ms_def[symmetric] cb_def[symmetric]
      by simp
  qed
qed

text \<open>Three objects on one line with batch size 2: two batches, the last of size 1.\<close>

lemma sample_decoded:
  \<open>decodedMovies sampleParse [''{"id":1}{"id":2}{"id":3}''] = [sampleMovie 1, sampleMovie 2, sampleMovie 3]\<close>
  by (simp add: decodedMovies_def spansOf_def scanLine_def scanChar_def scanner0_def
      List.map_filter_def sampleParse_def)

theorem batch_sizing_witness:
  \<open>length (drop (length (committed emptyStore))
      (committed (db (sendMoviesToSurrealDB showDigit sampleParse neverFails emptyStore
          [''{"id":1}{"id":2}{"id":3}''] (int 2))))) = 2 \<and>
   concat (drop (length (committed emptyStore))
      (committed (db (sendMoviesToSurrealDB showDigit sampleParse neverFails emptyStore
          [''{"id":1}{"id":2}{"id":3}''] (int 2))))) =
     map (formatMovieForDB showDigit) [sampleMovie 1, sampleMovie 2, sampleMovie 3] \<and>
   length (last (drop (length (committed emptyStore))
      (committed (db (sendMoviesToSurrealDB showDigit sampleParse neverFails emptyStore
          [''{"id":1}{"id":2}{"id":3}''] (int 2)))))) = 1\<close>
proof -
  have h1: "0 < (2::nat)" by simp
  have h2: "\<forall>st op. \<not> neverFails st op" by (simp add: neverFails_def)
  note t = batch_sizing[OF h1 h2, of showDigit sampleParse emptyStore \<open>[''{"id":1}{"id":2}{"id":3}'']\<close>]
  have ne: \<open>drop (length (committed emptyStore))
      (committed (db (sendMoviesToSurrealDB showDigit sampleParse neverFails emptyStore
          [''{"id":1}{"id":2}{"id":3}''] (int 2)))) \<noteq> []\<close>
    using t by (auto simp: Let_def sample_decoded)
  with t show ?thesis
    by (simp add: Let_def sample_decoded)
qed

text \<open>
  Claim C3. The call of \<open>sendBatchToSurrealDB\<close> in the loop stands inside the \<open>try\<close>
  of the parse block. When the database rejects it, the \<open>catch\<close> prints the error as a
  parse error, \<open>currentBatch\<close> is not emptied, and the next movie makes the same batch
  one longer. With batch size 2, three objects and a database that rejects the commit of
  two records, the run commits one batch of three and prints the completion line with
  one batch, where the sizes should be 2 and 1. After the loop the same call stands
  outside that \<open>try\<close>, and a rejection ends the run.
\<close>

theorem batch_resent_after_rejected_commit:
  \<open>committed (db (sendMoviesToSurrealDB showDigit sampleParse rejectsPair emptyStore
       [''{"id":1}{"id":2}{"id":3}''] 2)) =
     [map (formatMovieForDB showDigit) [sampleMovie 1, sampleMovie 2, sampleMovie 3]] \<and>
   console (sendMoviesToSurrealDB showDigit sampleParse rejectsPair emptyStore
       [''{"id":1}{"id":2}{"id":3}''] 2) =
     [ErrorParsingObject (DbFailure Commit), Clear, RecordsCreated 3 1, Completed 3 1]\<close>
  by (simp add: sendMoviesToSurrealDB_def readLoop_def processLine_def processChar_def
      completeObject_def initialState_def sampleParse_def emptyStore_def rejectsPair_def
      sendBatchToSurrealDB_def dbExec_def applyOp_def Let_def)

section \<open>The scanner on balanced texts\<close>

lemma scanLine_endOfLine: "scanLine k l = endOfLine (foldl scanChar k l)"
  by (simp add: scanLine_def endOfLine_def Let_def)

lemma scanLine_Cons: "scanLine k (c # l) = scanLine (scanChar k c) l"
  by (simp add: scanLine_endOfLine)

lemma splitLines_not_Nil: "splitLines cs \<noteq> []"
  by (induction cs) (auto split: list.splits)

lemma scanLines_splitLines:
  "foldl scanLine k (splitLines cs) = endOfLine (foldl streamChar k cs)"
proof (induction cs arbitrary: k)
  case Nil
  show ?case by (simp add: scanLine_endOfLine)
next
  case (Cons c cs)
  show ?case
  proof (cases "c = NL")
    case True
    then show ?thesis using Cons.IH[of "endOfLine k"]
      by (simp add: streamChar_def scanLine_endOfLine)
  next
    case False
    obtain l ls where sl: "splitLines cs = l # ls"
      using splitLines_not_Nil[of cs] by (cases "splitLines cs") auto
    have "foldl scanLine k (splitLines (c # cs)) = foldl scanLine (scanLine k (c # l)) ls"
      using False sl by simp
    also have "\<dots> = foldl scanLine (scanChar k c) (splitLines cs)"
      using sl by (simp add: scanLine_Cons)
    also have "\<dots> = endOfLine (foldl streamChar (scanChar k c) cs)" by (rule Cons.IH)
    finally show ?thesis using False streamChar_def[of k c] by simp
  qed
qed

lemma stream_item:
  "inString k \<Longrightarrow> okItem i \<Longrightarrow> foldl streamChar k (renderItem i) = k\<lparr>buffer := buffer k @ renderItem i\<rparr>"
  by (cases i) (auto simp: inString_def streamChar_def scanChar_def endOfLine_def Let_def)

lemma stream_items:
  "inString k \<Longrightarrow> \<forall>i\<in>set items. okItem i \<Longrightarrow>
   foldl streamChar k (concat (map renderItem items)) = k\<lparr>buffer := buffer k @ concat (map renderItem items)\<rparr>"
proof (induction items arbitrary: k)
  case Nil
  then show ?case by simp
next
  case (Cons i items)
  have s: "inString (k\<lparr>buffer := buffer k @ renderItem i\<rparr>)"
    using Cons.prems(1) by (simp add: inString_def)
  show ?case using Cons.prems Cons.IH[OF s] by (simp add: stream_item)
qed

lemma stream_text:
  "wellFormed t \<Longrightarrow> inObject k \<Longrightarrow> foldl streamChar k (render t) = k\<lparr>buffer := buffer k @ render t\<rparr>"
proof (induction t arbitrary: k)
  case (Chr c)
  then show ?case
    by (auto simp: inObject_def streamChar_def scanChar_def endOfLine_def Let_def)
next
  case (Quoted items)
  let ?k1 = "k\<lparr>buffer := buffer k @ [DQ], inQuotes := True\<rparr>"
  have 1: "streamChar k DQ = ?k1"
    using Quoted.prems(2) by (simp add: inObject_def streamChar_def scanChar_def Let_def)
  have 2: "inString ?k1" using Quoted.prems(2) by (simp add: inObject_def inString_def)
  have 3: "foldl streamChar ?k1 (concat (map renderItem items)) =
           ?k1\<lparr>buffer := buffer ?k1 @ concat (map renderItem items)\<rparr>"
    using Quoted.prems(1) by (intro stream_items[OF 2]) simp
  show ?case
    using Quoted.prems(2)
    by (simp add: 1 3) (simp add: inObject_def streamChar_def scanChar_def Let_def)
next
  case (Braced ts)
  let ?k1 = "k\<lparr>buffer := buffer k @ [CHR ''{''], openBraces := openBraces k + 1\<rparr>"
  have 1: "streamChar k (CHR ''{'') = ?k1"
    using Braced.prems(2) by (simp add: inObject_def streamChar_def scanChar_def Let_def)
  have 2: "inObject ?k1" using Braced.prems(2) by (simp add: inObject_def)
  have 3: "inObject j \<Longrightarrow> set us \<subseteq> set ts \<Longrightarrow>
           foldl streamChar j (concat (map render us)) = j\<lparr>buffer := buffer j @ concat (map render us)\<rparr>"
    for j us
  proof (induction us arbitrary: j)
    case Nil
    then show ?case by simp
  next
    case (Cons u us)
    have u: "u \<in> set ts" "wellFormed u" using Cons.prems(2) Braced.prems(1) by auto
    have s: "inObject (j\<lparr>buffer := buffer j @ render u\<rparr>)"
      using Cons.prems(1) by (simp add: inObject_def)
    show ?case using Cons.prems Cons.IH[OF s] Braced.IH[OF u(1) u(2) Cons.prems(1)] by simp
  qed
  show ?case
    using Braced.prems(2) 3[OF 2 subset_refl]
    by (simp add: 1) (simp add: inObject_def streamChar_def scanChar_def Let_def)
qed

lemma stream_texts:
  "\<forall>t\<in>set ts. wellFormed t \<Longrightarrow> inObject k \<Longrightarrow>
   foldl streamChar k (concat (map render ts)) = k\<lparr>buffer := buffer k @ concat (map render ts)\<rparr>"
proof (induction ts arbitrary: k)
  case Nil
  then show ?case by simp
next
  case (Cons u us)
  have s: "inObject (k\<lparr>buffer := buffer k @ render u\<rparr>)"
    using Cons.prems(2) by (simp add: inObject_def)
  show ?case using Cons.prems Cons.IH[OF _ s] stream_text[of u k] by simp
qed

lemma stream_open:
  assumes "idle k" "\<forall>t\<in>set ts. wellFormed t"
  shows "foldl streamChar k (CHR ''{'' # concat (map render ts)) =
         k\<lparr>buffer := buffer k @ CHR ''{'' # concat (map render ts), openBraces := 1\<rparr>"
proof -
  let ?k1 = "k\<lparr>buffer := buffer k @ [CHR ''{''], openBraces := 1\<rparr>"
  have 1: "streamChar k (CHR ''{'') = ?k1"
    using assms(1) by (simp add: idle_def streamChar_def scanChar_def Let_def)
  have 2: "inObject ?k1" using assms(1) by (simp add: idle_def inObject_def)
  show ?thesis using stream_texts[OF assms(2) 2] by (simp add: 1)
qed

lemma stream_object:
  assumes "idle k" "wellFormed (Braced ts)"
  shows "foldl streamChar k (render (Braced ts)) =
         k\<lparr>buffer := [], spans := spans k @ [buffer k @ render (Braced ts)]\<rparr>"
proof -
  have w: "\<forall>t\<in>set ts. wellFormed t" using assms(2) by simp
  let ?k2 = "k\<lparr>buffer := buffer k @ CHR ''{'' # concat (map render ts), openBraces := 1\<rparr>"
  have "foldl streamChar k (render (Braced ts)) =
        streamChar (foldl streamChar k (CHR ''{'' # concat (map render ts))) (CHR ''}'')"
  proof -
    have "render (Braced ts) = (CHR ''{'' # concat (map render ts)) @ [CHR ''}'']" by simp
    then show ?thesis by (simp only: foldl_append foldl_Cons foldl_Nil)
  qed
  also have "\<dots> = streamChar ?k2 (CHR ''}'')"
    by (simp only: stream_open[OF assms(1) w])
  also have "\<dots> = k\<lparr>buffer := [], spans := spans k @ [buffer k @ render (Braced ts)]\<rparr>"
    using assms(1) by (simp add: idle_def streamChar_def scanChar_def Let_def)
  finally show ?thesis .
qed

lemma sendMovies_lastBatch:
  "sendMoviesToSurrealDB showNum parse fails db0 lines B =
   lastBatch showNum fails (readLoop showNum parse fails B db0 lines)"
  by (simp add: sendMoviesToSurrealDB_def lastBatch_def Let_def)

lemma scan_object_after:
  assumes "idle k" "wellFormed (Braced ts)"
  shows "foldl scanLine k (splitLines (render (Braced ts))) =
         k\<lparr>buffer := [], spans := spans k @ [buffer k @ render (Braced ts)]\<rparr>"
  unfolding scanLines_splitLines stream_object[OF assms]
  by (simp add: endOfLine_def)

lemma readLoop_object:
  assumes "wellFormed (Braced ts)"
    and "openBraces (readLoop showNum parse fails B db0 ls) = 0"
    and "\<not> inQuotes (readLoop showNum parse fails B db0 ls)"
    and "\<not> escapeNext (readLoop showNum parse fails B db0 ls)"
  shows "spansOf (ls @ splitLines (render (Braced ts))) =
           spansOf ls @ [objectBuffer (readLoop showNum parse fails B db0 ls) @ render (Braced ts)]"
    and "readLoop showNum parse fails B db0 (ls @ splitLines (render (Braced ts))) =
           completeObject showNum parse fails B
             ((readLoop showNum parse fails B db0 ls)
                \<lparr>objectBuffer := objectBuffer (readLoop showNum parse fails B db0 ls) @ render (Braced ts)\<rparr>)"
proof -
  let ?k = "foldl scanLine scanner0 ls"
  let ?t = "render (Braced ts)"
  have i: "idle ?k" using assms(2-4) by (simp add: readLoop_scan withScan_def idle_def)
  have b: "objectBuffer (readLoop showNum parse fails B db0 ls) = buffer ?k"
    by (simp add: readLoop_scan withScan_def)
  have k': "foldl scanLine scanner0 (ls @ splitLines ?t) =
        ?k\<lparr>buffer := [], spans := spans ?k @ [buffer ?k @ ?t]\<rparr>"
    by (simp only: foldl_append scan_object_after[OF i assms(1)])
  show 1: "spansOf (ls @ splitLines ?t) =
           spansOf ls @ [objectBuffer (readLoop showNum parse fails B db0 ls) @ ?t]"
    unfolding b unfolding spansOf_def k' by simp
  show "readLoop showNum parse fails B db0 (ls @ splitLines ?t) =
           completeObject showNum parse fails B
             ((readLoop showNum parse fails B db0 ls)
                \<lparr>objectBuffer := objectBuffer (readLoop showNum parse fails B db0 ls) @ ?t\<rparr>)"
    unfolding b unfolding readLoop_scan unfolding spansOf_def k'
    by (simp add: withScan_def completeObject_decodeSpan decodeSpan_scan_updates)
qed

lemma processChar_escape:
  "\<not> escapeNext s \<Longrightarrow>
   processChar showNum parse fails B (processChar showNum parse fails B s BSL) c =
   s\<lparr>objectBuffer := objectBuffer s @ [BSL, c]\<rparr>"
  by (simp add: processChar_def Let_def)

text \<open>
  Claim C2. A backslash and the character after it change neither \<open>inQuotes\<close> nor
  \<open>openBraces\<close>, whatever the character is; in particular an escaped double quote does
  not toggle \<open>inQuotes\<close>. So for every object whose strings may hold escaped quotes, on
  one line or on several, that begins where the scanner is outside every object, the loop
  hands exactly one more text to \<open>JSON.parse\<close>: what the buffer held, followed by the
  text of the whole object. The object is neither split nor left open, and the whole
  effect of the loop on it is one run of the completion block on that text.
\<close>

theorem escaped_quote_single_span:
  assumes "wellFormed (Braced ts)"
    and "openBraces (readLoop showNum parse fails B db0 ls) = 0"
    and "\<not> inQuotes (readLoop showNum parse fails B db0 ls)"
    and "\<not> escapeNext (readLoop showNum parse fails B db0 ls)"
  shows "spansOf (ls @ splitLines (render (Braced ts))) =
           spansOf ls @ [objectBuffer (readLoop showNum parse fails B db0 ls) @ render (Braced ts)] \<and>
         readLoop showNum parse fails B db0 (ls @ splitLines (render (Braced ts))) =
           completeObject showNum parse fails B
             ((readLoop showNum parse fails B db0 ls)
                \<lparr>objectBuffer := objectBuffer (readLoop showNum parse fails B db0 ls) @ render (Braced ts)\<rparr>) \<and>
         (\<forall>s c. \<not> escapeNext s \<longrightarrow>
            processChar showNum parse fails B (processChar showNum parse fails B s BSL) c =
            s\<lparr>objectBuffer := objectBuffer s @ [BSL, c]\<rparr>)"
  using readLoop_object[OF assms] processChar_escape by blast

text \<open>The object of the specification, \<open>{"title":"A \"Great\" Movie"}\<close>.\<close>

lemma render_greatMovie:
  \<open>render greatMovie = ''{"title":"A '' @ [BSL] @ ''"Great'' @ [BSL] @ ''" Movie"}''\<close>
  by (simp add: greatMovie_def)

theorem escaped_quote_single_span_witness:
  \<open>spansOf [''{"title":"A '' @ [BSL] @ ''"Great'' @ [BSL] @ ''" Movie"}''] =
     [''{"title":"A '' @ [BSL] @ ''"Great'' @ [BSL] @ ''" Movie"}''] \<and>
   currentBatch (readLoop showDigit titleParse neverFails 2 emptyStore
      [''{"title":"A '' @ [BSL] @ ''"Great'' @ [BSL] @ ''" Movie"}'']) =
     [(sampleMovie 1)\<lparr>title := Some ''A "Great" Movie''\<rparr>] \<and>
   console (readLoop showDigit titleParse neverFails 2 emptyStore
      [''{"title":"A '' @ [BSL] @ ''"Great'' @ [BSL] @ ''" Movie"}'']) = []\<close>
proof -
  have w: "wellFormed greatMovie" by (simp add: greatMovie_def)
  have s: \<open>splitLines (render greatMovie) = [''{"title":"A '' @ [BSL] @ ''"Great'' @ [BSL] @ ''" Movie"}'']\<close>
    by (simp add: greatMovie_def)
  have p: \<open>titleParse (render greatMovie) = Some ((sampleMovie 1)\<lparr>title := Some ''A "Great" Movie''\<rparr>)\<close>
    by (simp add: titleParse_def)
  have r: "readLoop showDigit titleParse neverFails 2 emptyStore [] = initialState emptyStore"
    by (simp add: readLoop_def)
  have h: "openBraces (readLoop showDigit titleParse neverFails 2 emptyStore []) = 0"
    "\<not> inQuotes (readLoop showDigit titleParse neverFails 2 emptyStore [])"
    "\<not> escapeNext (readLoop showDigit titleParse neverFails 2 emptyStore [])"
    unfolding r by (simp_all add: initialState_def)
  from escaped_quote_single_span[OF w[unfolded greatMovie_def] h, folded greatMovie_def]
  have "spansOf (splitLines (render greatMovie)) = [render greatMovie]"
    and "readLoop showDigit titleParse neverFails 2 emptyStore (splitLines (render greatMovie)) =
           completeObject showDigit titleParse neverFails 2
             ((initialState emptyStore)\<lparr>objectBuffer := render greatMovie\<rparr>)"
    unfolding r by (simp_all add: spansOf_def scanner0_def initialState_def)
  then show ?thesis
    unfolding s using p by (simp add: render_greatMovie completeObject_def initialState_def)
qed

section \<open>Truncated streams\<close>

lemma lastBatch_console:
  "console (lastBatch showNum fails r) = console r @ [Completed (movieCount r) (batchCount r)] \<and>
     db (lastBatch showNum fails r) = db r \<and> currentBatch r = [] \<or>
   console (lastBatch showNum fails r) =
       console r @ [Clear, RecordsCreated (movieCount r) (batchCount r + 1),
                    Completed (movieCount r) (batchCount r + 1)] \<and>
     committed (db (lastBatch showNum fails r)) =
       committed (db r) @ [map (formatMovieForDB showNum) (currentBatch r)] \<and> currentBatch r \<noteq> [] \<or>
   (\<exists>op. console (lastBatch showNum fails r) = console r @ [ErrorLog (DbFailure op)]) \<and>
     committed (db (lastBatch showNum fails r)) = committed (db r) \<and> currentBatch r \<noteq> []"
proof (cases "currentBatch r = []")
  case True
  then show ?thesis by (simp add: lastBatch_def)
next
  case False
  obtain st' e where sb: "sendBatchToSurrealDB showNum fails (db r) (currentBatch r) = (st', e)"
    by (cases "sendBatchToSurrealDB showNum fails (db r) (currentBatch r)") auto
  show ?thesis
  proof (cases e)
    case None
    with sendBatch_result[OF sb] sb False show ?thesis by (simp add: lastBatch_def)
  next
    case (Some err)
    with sendBatch_error[of showNum fails "db r" "currentBatch r" st' err] sb
    obtain op where "err = DbFailure op" by auto
    with Some sendBatch_result[OF sb] sb False show ?thesis by (simp add: lastBatch_def)
  qed
qed

text \<open>
  A scan only adds to the texts it has emitted. So when a text is scanned without an
  emission, no part of it is scanned with one, and the depth, once positive, stays
  positive.
\<close>

lemma spans_streamChar: "\<exists>zs. spans (streamChar k c) = spans k @ zs"
  by (simp add: streamChar_def endOfLine_def scanChar_def Let_def)

lemma spans_foldl_streamChar: "\<exists>zs. spans (foldl streamChar k cs) = spans k @ zs"
proof (induction cs arbitrary: k)
  case Nil
  show ?case by simp
next
  case (Cons c cs)
  from spans_streamChar[of k c] obtain z1 where 1: "spans (streamChar k c) = spans k @ z1" ..
  from Cons[of "streamChar k c"] obtain z2 where
    "spans (foldl streamChar (streamChar k c) cs) = spans (streamChar k c) @ z2" ..
  with 1 show ?case by simp
qed

lemma spans_between:
  assumes "spans (foldl streamChar k (p @ q)) = spans k"
  shows "spans (foldl streamChar k p) = spans k"
proof -
  from spans_foldl_streamChar[of k p] obtain z1 where 1: "spans (foldl streamChar k p) = spans k @ z1" ..
  from spans_foldl_streamChar[of "foldl streamChar k p" q] obtain z2 where
    "spans (foldl streamChar (foldl streamChar k p) q) = spans (foldl streamChar k p) @ z2" ..
  with 1 assms have "spans k @ z1 @ z2 = spans k" by simp
  then have "z1 = []" by simp
  with 1 show ?thesis by simp
qed

lemma depth_streamChar:
  "1 \<le> openBraces k \<Longrightarrow> spans (streamChar k c) = spans k \<Longrightarrow> 1 \<le> openBraces (streamChar k c)"
  by (auto simp: streamChar_def endOfLine_def scanChar_def Let_def split: if_splits)

lemma depth_foldl_streamChar:
  "1 \<le> openBraces k \<Longrightarrow> spans (foldl streamChar k cs) = spans k \<Longrightarrow>
   1 \<le> openBraces (foldl streamChar k cs)"
proof (induction cs arbitrary: k)
  case Nil
  then show ?case by simp
next
  case (Cons c cs)
  have "spans (foldl streamChar k ([c] @ cs)) = spans k" using Cons.prems(2) by simp
  then have 1: "spans (streamChar k c) = spans k" using spans_between[of k "[c]" cs] by simp
  with Cons.prems(1) have 2: "1 \<le> openBraces (streamChar k c)" by (rule depth_streamChar)
  from Cons.prems(2) 1 have "spans (foldl streamChar (streamChar k c) cs) = spans (streamChar k c)"
    by simp
  with 2 show ?case using Cons.IH[of "streamChar k c"] by simp
qed

lemma take_snoc_le: "n \<le> length xs \<Longrightarrow> take n (xs @ [c]) = take n xs"
  by simp

lemma withScan_flags:
  "openBraces (withScan k x) = openBraces k" "inQuotes (withScan k x) = inQuotes k"
  "escapeNext (withScan k x) = escapeNext k"
  by (simp_all add: withScan_def)

lemma stream_prefix:
  assumes i: "idle k" and w: "wellFormed (Braced ts)"
    and n: "0 < n" "n < length (render (Braced ts))"
  shows "spans (foldl streamChar k (take n (render (Braced ts)))) = spans k"
    and "1 \<le> openBraces (foldl streamChar k (take n (render (Braced ts))))"
proof -
  let ?o = "CHR ''{'' # concat (map render ts)"
  have w': "\<forall>t\<in>set ts. wellFormed t" using w by simp
  have r: "render (Braced ts) = ?o @ [CHR ''}'']" by simp
  have n': "n \<le> length ?o" using n(2) by simp
  have p: "take n (render (Braced ts)) = take n ?o"
    by (simp only: r take_snoc_le[OF n'])
  have o: "?o = take n ?o @ drop n ?o" by simp
  have "spans (foldl streamChar k ?o) = spans k"
    by (simp only: stream_open[OF i w']) simp
  then have "spans (foldl streamChar k (take n ?o @ drop n ?o)) = spans k" by simp
  then have s: "spans (foldl streamChar k (take n ?o)) = spans k" by (rule spans_between)
  then show 1: "spans (foldl streamChar k (take n (render (Braced ts)))) = spans k"
    unfolding p .
  obtain m where m: "n = Suc m" using n(1) by (cases n) auto
  let ?k1 = "streamChar k (CHR ''{'')"
  have k1: "?k1 = k\<lparr>buffer := buffer k @ [CHR ''{''], openBraces := 1\<rparr>"
    using i by (simp add: idle_def streamChar_def scanChar_def Let_def)
  have t: "take n ?o = CHR ''{'' # take m (concat (map render ts))" unfolding m by simp
  have "spans (foldl streamChar ?k1 (take m (concat (map render ts)))) = spans ?k1"
    using s unfolding t by (simp add: k1)
  moreover have "1 \<le> openBraces ?k1" by (simp add: k1)
  ultimately have "1 \<le> openBraces (foldl streamChar ?k1 (take m (concat (map render ts))))"
    by (intro depth_foldl_streamChar)
  then show "1 \<le> openBraces (foldl streamChar k (take n (render (Braced ts))))"
    unfolding p t by simp
qed

lemma endOfLine_fields:
  "spans (endOfLine k) = spans k" "openBraces (endOfLine k) = openBraces k"
  "inQuotes (endOfLine k) = inQuotes k" "escapeNext (endOfLine k) = escapeNext k"
  by (simp_all add: endOfLine_def)

lemma scan_prefix:
  assumes "openBraces (readLoop showNum parse fails B db0 (splitLines pre)) = 0"
    and "\<not> inQuotes (readLoop showNum parse fails B db0 (splitLines pre))"
    and "\<not> escapeNext (readLoop showNum parse fails B db0 (splitLines pre))"
    and w: "wellFormed (Braced ts)" and n: "0 < n" "n < length (render (Braced ts))"
  shows "spansOf (splitLines (pre @ take n (render (Braced ts)))) = spansOf (splitLines pre)"
    and "0 < openBraces (readLoop showNum parse fails B db0 (splitLines (pre @ take n (render (Braced ts)))))"
proof -
  let ?k = "foldl streamChar scanner0 pre"
  let ?p = "take n (render (Braced ts))"
  have i: "idle ?k"
    using assms(1-3)
    by (simp add: readLoop_scan withScan_def idle_def scanLines_splitLines endOfLine_fields)
  note sp = stream_prefix[OF i w n]
  show 1: "spansOf (splitLines (pre @ ?p)) = spansOf (splitLines pre)"
    by (simp only: spansOf_def scanLines_splitLines foldl_append endOfLine_fields sp(1))
  have "openBraces (readLoop showNum parse fails B db0 (splitLines (pre @ ?p))) =
        openBraces (foldl streamChar ?k ?p)"
    by (simp only: readLoop_scan withScan_flags scanLines_splitLines foldl_append endOfLine_fields)
  with sp(2) show "0 < openBraces (readLoop showNum parse fails B db0 (splitLines (pre @ ?p)))"
    by simp
qed

lemma lastBatch_withScan:
  "lastBatch showNum fails (withScan k x) = withScan k (lastBatch showNum fails x)"
  by (simp add: lastBatch_def withScan_def split: prod.splits option.splits)

lemma sendMovies_spans:
  "sendMoviesToSurrealDB showNum parse fails db0 lines B =
   withScan (foldl scanLine scanner0 lines)
     (lastBatch showNum fails (foldl (decodeSpan showNum parse fails B) (initialState db0) (spansOf lines)))"
  by (simp add: sendMovies_lastBatch readLoop_scan lastBatch_withScan)

lemma sendMovies_same_spans:
  assumes "spansOf lines = spansOf lines'"
  shows "db (sendMoviesToSurrealDB showNum parse fails db0 lines B) =
           db (sendMoviesToSurrealDB showNum parse fails db0 lines' B)"
    and "console (sendMoviesToSurrealDB showNum parse fails db0 lines B) =
           console (sendMoviesToSurrealDB showNum parse fails db0 lines' B)"
    and "movieCount (sendMoviesToSurrealDB showNum parse fails db0 lines B) =
           movieCount (sendMoviesToSurrealDB showNum parse fails db0 lines' B)"
    and "batchCount (sendMoviesToSurrealDB showNum parse fails db0 lines B) =
           batchCount (sendMoviesToSurrealDB showNum parse fails db0 lines' B)"
  unfolding sendMovies_spans assms by (simp_all add: withScan_def)

text \<open>
  Claim C4, amended. There is no structural error in the loop. For every input, also one
  whose depth goes negative or is not zero at the end, the run ends with the completion
  line or with the error of a rejected database call; and what a run commits and prints
  depends on the texts closed before the end of the stream only: the text left in the
  buffer is dropped. Let a stream end inside an object: after a part that leaves the
  scanner outside every object comes a proper, non-empty prefix of the text of an
  object, cut anywhere, also inside a string or a nested object, on the same line or on
  a new one. Then the depth is positive at the end of the stream, nothing of the
  truncated tail is handed to \<open>JSON.parse\<close>, and the run commits and prints what the
  run on the part before the tail does, with the same counts.
\<close>

theorem truncated_stream_completes:
  assumes "wellFormed (Braced ts)" and "0 < n" and "n < length (render (Braced ts))"
    and "openBraces (readLoop showNum parse fails B db0 (splitLines pre)) = 0"
    and "\<not> inQuotes (readLoop showNum parse fails B db0 (splitLines pre))"
    and "\<not> escapeNext (readLoop showNum parse fails B db0 (splitLines pre))"
  shows "0 < openBraces (readLoop showNum parse fails B db0 (splitLines (pre @ take n (render (Braced ts))))) \<and>
         spansOf (splitLines (pre @ take n (render (Braced ts)))) = spansOf (splitLines pre) \<and>
         db (sendMoviesToSurrealDB showNum parse fails db0 (splitLines (pre @ take n (render (Braced ts)))) B) =
           db (sendMoviesToSurrealDB showNum parse fails db0 (splitLines pre) B) \<and>
         console (sendMoviesToSurrealDB showNum parse fails db0 (splitLines (pre @ take n (render (Braced ts)))) B) =
           console (sendMoviesToSurrealDB showNum parse fails db0 (splitLines pre) B) \<and>
         movieCount (sendMoviesToSurrealDB showNum parse fails db0 (splitLines (pre @ take n (render (Braced ts)))) B) =
           movieCount (sendMoviesToSurrealDB showNum parse fails db0 (splitLines pre) B) \<and>
         batchCount (sendMoviesToSurrealDB showNum parse fails db0 (splitLines (pre @ take n (render (Braced ts)))) B) =
           batchCount (sendMoviesToSurrealDB showNum parse fails db0 (splitLines pre) B) \<and>
         (\<forall>lines lines'. spansOf lines = spansOf lines' \<longrightarrow>
            db (sendMoviesToSurrealDB showNum parse fails db0 lines B) =
              db (sendMoviesToSurrealDB showNum parse fails db0 lines' B) \<and>
            console (sendMoviesToSurrealDB showNum parse fails db0 lines B) =
              console (sendMoviesToSurrealDB showNum parse fails db0 lines' B)) \<and>
         (\<forall>lines.
            (\<exists>m k. last (console (sendMoviesToSurrealDB showNum parse fails db0 lines B)) = Completed m k) \<or>
            (\<exists>op. last (console (sendMoviesToSurrealDB showNum parse fails db0 lines B)) = ErrorLog (DbFailure op)))"
proof -
  note p = scan_prefix[OF assms(4-6) assms(1-3)]
  note s = sendMovies_same_spans[OF p(1), of showNum parse fails db0 B]
  have 3: "(\<exists>m k. last (console (sendMoviesToSurrealDB showNum parse fails db0 lines B)) = Completed m k) \<or>
            (\<exists>op. last (console (sendMoviesToSurrealDB showNum parse fails db0 lines B)) = ErrorLog (DbFailure op))"
    for lines
    using lastBatch_console[of showNum fails "readLoop showNum parse fails B db0 lines"]
    unfolding sendMovies_lastBatch by auto
  from p s 3 sendMovies_same_spans(1,2)[of _ _ showNum parse fails db0 B] show ?thesis by blast
qed

text \<open>
  Claim C4 as stated. The stream \<open>{"id":1}{"id":\<close> ends at depth 1, and the stream
  \<open>}{"id":1}\<close> takes the depth to \<open>-1\<close>. Both runs end with the completion line, and no
  error is printed.
\<close>

theorem structural_error_counterexample:
  \<open>openBraces (readLoop showDigit sampleParse neverFails 2 emptyStore [''{"id":1}{"id":'']) = 1 \<and>
   console (sendMoviesToSurrealDB showDigit sampleParse neverFails emptyStore [''{"id":1}{"id":''] 2) =
     [Clear, RecordsCreated 1 1, Completed 1 1] \<and>
   openBraces (readLoop showDigit sampleParse neverFails 2 emptyStore [''}{"id":1}'']) = - 1 \<and>
   console (sendMoviesToSurrealDB showDigit sampleParse neverFails emptyStore [''}{"id":1}''] 2) =
     [Completed 0 0]\<close>
  by (simp add: sendMoviesToSurrealDB_def readLoop_def processLine_def processChar_def
      completeObject_def initialState_def sampleParse_def emptyStore_def neverFails_def
      sendBatchToSurrealDB_def dbExec_def applyOp_def Let_def)

text \<open>
  The stream \<open>{"id":1}{"id":\<close>, cut on the line of the first object, and the stream of
  the two lines \<open>{"id":1}\<close> and \<open>{"id":1,"title":"Ab\<close>, cut inside a string.
\<close>

theorem truncated_stream_completes_witness:
  \<open>0 < openBraces (readLoop showDigit sampleParse neverFails 2 emptyStore [''{"id":1}{"id":'']) \<and>
   spansOf [''{"id":1}{"id":''] = [''{"id":1}''] \<and>
   console (sendMoviesToSurrealDB showDigit sampleParse neverFails emptyStore [''{"id":1}{"id":''] 2) =
     [Clear, RecordsCreated 1 1, Completed 1 1] \<and>
   0 < openBraces (readLoop showDigit sampleParse neverFails 2 emptyStore
     [''{"id":1}'', ''{"id":1,"title":"Ab'']) \<and>
   spansOf [''{"id":1}'', ''{"id":1,"title":"Ab''] = [''{"id":1}''] \<and>
   console (sendMoviesToSurrealDB showDigit sampleParse neverFails emptyStore
     [''{"id":1}'', ''{"id":1,"title":"Ab''] 2) =
     [Clear, RecordsCreated 1 1, Completed 1 1]\<close>
proof -
  let ?pre1 = \<open>''{"id":1}''\<close>
  let ?pre2 = \<open>''{"id":1}'' @ [NL]\<close>
  have w1: "wellFormed (Braced [Quoted (map Plain ''id''), Chr (CHR '':''), Chr (CHR ''2'')])"
    by simp
  have w2: "wellFormed (Braced [Quoted (map Plain ''id''), Chr (CHR '':''), Chr (CHR ''1''), Chr (CHR '',''),
             Quoted (map Plain ''title''), Chr (CHR '':''), Quoted (map Plain ''Ab'')])"
    by simp
  have n1: "(0::nat) < 6"
    "6 < length (render (Braced [Quoted (map Plain ''id''), Chr (CHR '':''), Chr (CHR ''2'')]))"
    by simp_all
  have n2: "(0::nat) < 19"
    "19 < length (render (Braced [Quoted (map Plain ''id''), Chr (CHR '':''), Chr (CHR ''1''), Chr (CHR '',''),
             Quoted (map Plain ''title''), Chr (CHR '':''), Quoted (map Plain ''Ab'')]))"
    by simp_all
  have r1: \<open>readLoop showDigit sampleParse neverFails 2 emptyStore (splitLines ?pre1) =
     (initialState emptyStore)\<lparr>movieCount := 1, currentBatch := [sampleMovie 1]\<rparr>\<close>
    by (simp add: readLoop_def processLine_def processChar_def completeObject_def initialState_def
        sampleParse_def)
  have r2: \<open>readLoop showDigit sampleParse neverFails 2 emptyStore (splitLines ?pre2) =
     (initialState emptyStore)\<lparr>movieCount := 1, currentBatch := [sampleMovie 1]\<rparr>\<close>
    by (simp add: readLoop_def processLine_def processChar_def completeObject_def initialState_def
        sampleParse_def)
  have h1: \<open>openBraces (readLoop showDigit sampleParse neverFails 2 emptyStore (splitLines ?pre1)) = 0\<close>
    \<open>\<not> inQuotes (readLoop showDigit sampleParse neverFails 2 emptyStore (splitLines ?pre1))\<close>
    \<open>\<not> escapeNext (readLoop showDigit sampleParse neverFails 2 emptyStore (splitLines ?pre1))\<close>
    unfolding r1 by (simp_all add: initialState_def)
  have h2: \<open>openBraces (readLoop showDigit sampleParse neverFails 2 emptyStore (splitLines ?pre2)) = 0\<close>
    \<open>\<not> inQuotes (readLoop showDigit sampleParse neverFails 2 emptyStore (splitLines ?pre2))\<close>
    \<open>\<not> escapeNext (readLoop showDigit sampleParse neverFails 2 emptyStore (splitLines ?pre2))\<close>
    unfolding r2 by (simp_all add: initialState_def)
  have s1: \<open>spansOf (splitLines ?pre1) = [''{"id":1}'']\<close> \<open>spansOf (splitLines ?pre2) = [''{"id":1}'']\<close>
    by (simp_all add: spansOf_def scanLine_def scanChar_def scanner0_def)
  have c1: \<open>console (sendMoviesToSurrealDB showDigit sampleParse neverFails emptyStore (splitLines ?pre1) 2) =
     [Clear, RecordsCreated 1 1, Completed 1 1]\<close>
    unfolding sendMoviesToSurrealDB_def r1
    by (simp add: initialState_def sendBatchToSurrealDB_def dbExec_def applyOp_def neverFails_def)
  have c2: \<open>console (sendMoviesToSurrealDB showDigit sampleParse neverFails emptyStore (splitLines ?pre2) 2) =
     [Clear, RecordsCreated 1 1, Completed 1 1]\<close>
    unfolding sendMoviesToSurrealDB_def r2
    by (simp add: initialState_def sendBatchToSurrealDB_def dbExec_def applyOp_def neverFails_def)
  have l1: \<open>splitLines (?pre1 @ take 6 (render (Braced [Quoted (map Plain ''id''), Chr (CHR '':''), Chr (CHR ''2'')])))
      = [''{"id":1}{"id":'']\<close>
    by simp
  have l2: \<open>splitLines (?pre2 @ take 19 (render (Braced [Quoted (map Plain ''id''), Chr (CHR '':''), Chr (CHR ''1''), Chr (CHR '',''),
             Quoted (map Plain ''title''), Chr (CHR '':''), Quoted (map Plain ''Ab'')])))
      = [''{"id":1}'', ''{"id":1,"title":"Ab'']\<close>
    by simp
  note t1 = truncated_stream_completes[OF w1 n1 h1]
  note t2 = truncated_stream_completes[OF w2 n2 h2]
  from t1 have a: \<open>0 < openBraces (readLoop showDigit sampleParse neverFails 2 emptyStore [''{"id":1}{"id":'']) \<and>
   spansOf [''{"id":1}{"id":''] = [''{"id":1}''] \<and>
   console (sendMoviesToSurrealDB showDigit sampleParse neverFails emptyStore [''{"id":1}{"id":''] 2) =
     [Clear, RecordsCreated 1 1, Completed 1 1]\<close>
    unfolding l1 s1 c1 by blast
  from t2 have b: \<open>0 < openBraces (readLoop showDigit sampleParse neverFails 2 emptyStore
     [''{"id":1}'', ''{"id":1,"title":"Ab'']) \<and>
   spansOf [''{"id":1}'', ''{"id":1,"title":"Ab''] = [''{"id":1}''] \<and>
   console (sendMoviesToSurrealDB showDigit sampleParse neverFails emptyStore
     [''{"id":1}'', ''{"id":1,"title":"Ab''] 2) =
     [Clear, RecordsCreated 1 1, Completed 1 1]\<close>
    unfolding l2 s1 c2 by blast
  from a b show ?thesis by blast
qed

section \<open>Decode errors and the counts printed\<close>

lemma decodeSpan_console:
  "syntaxErrors (console (decodeSpan showNum parse fails B s sp)) =
   syntaxErrors (console s) + (if parse sp = None then 1 else 0)"
proof (cases "parse sp")
  case None
  then show ?thesis by (simp add: decodeSpan_def syntaxErrors_def)
next
  case (Some mv)
  obtain st' e where sb:
    "sendBatchToSurrealDB showNum fails (db s) (currentBatch s @ [mv]) = (st', e)"
    by (cases "sendBatchToSurrealDB showNum fails (db s) (currentBatch s @ [mv])") auto
  show ?thesis
  proof (cases e)
    case None
    with Some sb show ?thesis by (simp add: decodeSpan_def syntaxErrors_def Let_def)
  next
    case (Some err)
    with sendBatch_error[of showNum fails "db s" "currentBatch s @ [mv]" st' err] sb
    have "err \<noteq> SyntaxError" by auto
    with \<open>parse sp = Some mv\<close> Some sb show ?thesis
      by (simp add: decodeSpan_def syntaxErrors_def Let_def)
  qed
qed

lemma feed_console:
  "syntaxErrors (console (foldl (decodeSpan showNum parse fails B) (initialState db0) sps)) =
   length (filter (\<lambda>sp. parse sp = None) sps)"
  by (induction sps rule: rev_induct)
     (simp_all add: decodeSpan_console, simp add: initialState_def syntaxErrors_def)

lemma completeObject_syntax_error:
  "parse (objectBuffer s) = None \<Longrightarrow>
   completeObject showNum parse fails B s =
   s\<lparr>console := console s @ [ErrorParsingObject SyntaxError], objectBuffer := []\<rparr>"
  by (simp add: completeObject_def)

text \<open>
  Claim C5. When \<open>JSON.parse\<close> throws on a recovered text, the completion block prints
  the error, resets the buffer and changes nothing else: the object is skipped and the
  loop goes on. Over a whole input, every text that parses is batched, in order, whatever
  texts fail to parse around it: the records committed by the loop followed by the open
  batch are the movies decoded from the texts that parse, the count of movies is their
  number, and one error line is printed for each text that does not parse.
\<close>

theorem decode_error_isolated:
  "(parse (objectBuffer s) = None \<longrightarrow>
      completeObject showNum parse fails B s =
      s\<lparr>console := console s @ [ErrorParsingObject SyntaxError], objectBuffer := []\<rparr>) \<and>
   (let r = readLoop showNum parse fails B db0 lines
    in concat (drop (length (committed db0)) (committed (db r))) @
         map (formatMovieForDB showNum) (currentBatch r) =
       map (formatMovieForDB showNum) (decodedMovies parse lines) \<and>
       movieCount r = length (decodedMovies parse lines) \<and>
       syntaxErrors (console r) = length (filter (\<lambda>sp. parse sp = None) (spansOf lines)))"
proof -
  from readLoop_invariant[of showNum parse fails B db0 lines]
  obtain new where
    "committed (db (readLoop showNum parse fails B db0 lines)) = committed db0 @ new"
    "concat new @ map (formatMovieForDB showNum) (currentBatch (readLoop showNum parse fails B db0 lines))
       = map (formatMovieForDB showNum) (decodedMovies parse lines)"
    "movieCount (readLoop showNum parse fails B db0 lines) = length (decodedMovies parse lines)"
    by blast
  then show ?thesis
    by (simp add: Let_def completeObject_syntax_error readLoop_fields feed_console)
qed

text \<open>The malformed object \<open>{oops}\<close> between two valid objects.\<close>

lemma sample_spans:
  \<open>spansOf [''{"id":1}{oops}{"id":2}''] = [''{"id":1}'', ''{oops}'', ''{"id":2}'']\<close>
  by (simp add: spansOf_def scanLine_def scanChar_def scanner0_def)

theorem decode_error_isolated_witness:
  \<open>completeObject showDigit sampleParse neverFails 3 ((initialState emptyStore)\<lparr>objectBuffer := ''{oops}''\<rparr>) =
     (initialState emptyStore)\<lparr>console := [ErrorParsingObject SyntaxError]\<rparr> \<and>
   concat (drop (length (committed emptyStore))
       (committed (db (readLoop showDigit sampleParse neverFails 3 emptyStore [''{"id":1}{oops}{"id":2}''])))) @
     map (formatMovieForDB showDigit)
       (currentBatch (readLoop showDigit sampleParse neverFails 3 emptyStore [''{"id":1}{oops}{"id":2}''])) =
     map (formatMovieForDB showDigit) [sampleMovie 1, sampleMovie 2] \<and>
   syntaxErrors (console (readLoop showDigit sampleParse neverFails 3 emptyStore [''{"id":1}{oops}{"id":2}''])) = 1\<close>
proof -
  have p: \<open>sampleParse (objectBuffer ((initialState emptyStore)\<lparr>objectBuffer := ''{oops}''\<rparr>)) = None\<close>
    by (simp add: sampleParse_def)
  have d: \<open>decodedMovies sampleParse [''{"id":1}{oops}{"id":2}''] = [sampleMovie 1, sampleMovie 2]\<close>
    by (simp add: decodedMovies_def sample_spans List.map_filter_def sampleParse_def)
  have f: \<open>length (filter (\<lambda>sp. sampleParse sp = None) (spansOf [''{"id":1}{oops}{"id":2}''])) = 1\<close>
    by (simp add: sample_spans sampleParse_def)
  from decode_error_isolated[of sampleParse \<open>(initialState emptyStore)\<lparr>objectBuffer := ''{oops}''\<rparr>\<close>
      showDigit neverFails 3 emptyStore \<open>[''{"id":1}{oops}{"id":2}'']\<close>] p
  show ?thesis
    by (simp add: Let_def d f initialState_def)
qed

text \<open>
  Claim C9, amended. A run ends in one of three ways. With no open batch it prints the
  completion line; with an open batch that is committed it prints the progress line and
  the completion line; in both, the counts printed are the number of movies decoded and
  the number of transactions that the run has committed. With an open batch whose commit
  is rejected it prints the error and no count. No count of the skipped objects is kept.
\<close>

theorem completion_counts:
  "(let r = readLoop showNum parse fails B db0 lines;
        s = sendMoviesToSurrealDB showNum parse fails db0 lines B;
        M = length (decodedMovies parse lines);
        K = length (committed (db s)) - length (committed db0)
    in console s = console r @ [Completed M K] \<or>
       console s = console r @ [Clear, RecordsCreated M K, Completed M K] \<or>
       (\<exists>op. console s = console r @ [ErrorLog (DbFailure op)]) \<and> committed (db s) = committed (db r))"
proof -
  define r where "r = readLoop showNum parse fails B db0 lines"
  from readLoop_invariant[of showNum parse fails B db0 lines]
  obtain new where
    c: "committed (db r) = committed db0 @ new" and
    bc: "batchCount r = length new" and
    mc: "movieCount r = length (decodedMovies parse lines)"
    unfolding r_def by blast
  from lastBatch_console[of showNum fails r] c bc mc show ?thesis
    unfolding Let_def sendMovies_lastBatch r_def[symmetric] by auto
qed

text \<open>
  Claim C9 as stated. A run whose last commit is rejected prints the error alone; a run
  that skips one object prints the counts of movies and batches, and no count of skips.
\<close>

theorem counts_counterexample:
  \<open>console (sendMoviesToSurrealDB showDigit sampleParse alwaysFails emptyStore [''{"id":1}''] 2) =
     [ErrorLog (DbFailure Begin)] \<and>
   console (sendMoviesToSurrealDB showDigit sampleParse neverFails emptyStore [''{"id":1}{oops}{"id":2}''] 2) =
     [ErrorParsingObject SyntaxError, Clear, RecordsCreated 2 1, Completed 2 1]\<close>
  by (simp add: sendMoviesToSurrealDB_def readLoop_def processLine_def processChar_def
      completeObject_def initialState_def sampleParse_def emptyStore_def neverFails_def alwaysFails_def
      sendBatchToSurrealDB_def dbExec_def applyOp_def Let_def)

section \<open>Two objects on one line\<close>

text \<open>
  Claim C1. \<open>fixJsonFile\<close> adds the whole line to its buffer before it scans the line.
  On the line \<open>{"a":1}{"b":2}\<close> the first closing brace writes the whole line, both
  objects, as the first element of the array, and the second closing brace writes a comma
  and an empty text.
\<close>

theorem fixJsonFile_two_objects_one_line:
  \<open>fixJsonFile [''{"a":1}{"b":2}''] =
     [[CHR ''['', NL], ''{"a":1}{"b":2}'', [CHR '','', NL], [], [NL, CHR '']'']]\<close>
  by (simp add: fixJsonFile_def fixLine_def fixChar_def trim_def isWhite_def)

text \<open>
  Both scanners emit at the same characters: a closing brace, outside a string and not
  escaped, that takes the depth from 1 to 0. They differ in the text they emit.
\<close>

lemma scanChar_emits:
  "spans (scanChar k c) =
     (if \<not> escapeNext k \<and> \<not> inQuotes k \<and> c = CHR ''}'' \<and> openBraces k = 1
      then spans k @ [buffer k @ [c]] else spans k)"
  by (simp add: scanChar_def Let_def)

lemma fixChar_writes:
  "written (fixChar s c) =
     (if \<not> escapeNext s \<and> \<not> inQuotes s \<and> c = CHR ''}'' \<and> openBraces s = 1
      then written s @ (if isFirstObject s then [] else [[CHR '','', NL]]) @ [trim (lineBuffer s)]
      else written s)"
  by (simp add: fixChar_def Let_def)

text \<open>
  The loop of json-to-db.ts adds the characters to its buffer one by one; on the same
  line it recovers the two objects. \<open>fixJsonFile\<close> is right when each object ends its
  line, and on the object with escaped quotes.
\<close>

lemma spansOf_two_objects_one_line:
  \<open>spansOf [''{"a":1}{"b":2}''] = [''{"a":1}'', ''{"b":2}'']\<close>
  by (simp add: spansOf_def scanLine_def scanChar_def scanner0_def)

lemma fixJsonFile_two_lines:
  \<open>fixJsonFile [''{"a":1}'', ''{"b":2}''] =
     [[CHR ''['', NL], ''{"a":1}'', [CHR '','', NL], ''{"b":2}'', [NL, CHR '']'']]\<close>
  by (simp add: fixJsonFile_def fixLine_def fixChar_def trim_def isWhite_def)

lemma fixJsonFile_escaped_quote:
  \<open>fixJsonFile [''{"title":"A '' @ [BSL] @ ''"Great'' @ [BSL] @ ''" Movie"}''] =
     [[CHR ''['', NL], ''{"title":"A '' @ [BSL] @ ''"Great'' @ [BSL] @ ''" Movie"}'', [NL, CHR '']'']]\<close>
  by (simp add: fixJsonFile_def fixLine_def fixChar_def trim_def isWhite_def)

end
